theory Spec2Isabelle
  imports Complex_Main
begin

section \<open>The crop-region editor of QueryLens (class CropManager of src/index.tsx)\<close>

text \<open>
  The source file holds two application variants; the class \<^verbatim>\<open>CropManager\<close> is textually
  the same in both (lines 265--477 and 1089--1301), so one embedding covers both.

  Numbers. A JavaScript number is modelled as an exact \<^typ>\<open>real\<close>: rounding, infinities and
  NaN are not modelled. The only divisions of the class are by the rendered width of the
  canvas (\<^verbatim>\<open>getNativePointerPosition\<close>) and by its intrinsic width (\<^verbatim>\<open>updateStyle\<close>); where a
  result depends on such a quotient, the theorems below assume the divisor positive, since
  HOL's \<open>a / 0 = 0\<close> is not what JavaScript computes there.
  The intrinsic width and height of a canvas are unsigned integers, modelled as \<^typ>\<open>nat\<close>.
\<close>

subsection \<open>Data model\<close>

text \<open>The object literals \<^verbatim>\<open>{ x, y }\<close> and \<^verbatim>\<open>{ x, y, width, height }\<close>.\<close>

record point =
  point_x :: real
  point_y :: real

record rect =
  rect_x :: real
  rect_y :: real
  rect_width :: real
  rect_height :: real

text \<open>What \<^verbatim>\<open>getBoundingClientRect()\<close> returns: a box in client (viewport) coordinates.\<close>

record domrect =
  dr_left :: real
  dr_top :: real
  dr_width :: real
  dr_height :: real

text \<open>
  A canvas element: its intrinsic size and its bitmap. A pixel is \<open>None\<close> when it is
  transparent black, the value every pixel has after the canvas is created or resized.
\<close>

record 'px canvas =
  canvas_width :: nat
  canvas_height :: nat
  pixels :: "nat \<Rightarrow> nat \<Rightarrow> 'px option"

text \<open>
  Where a pointer event hit. The page's markup is not part of the source; the class relies
  on the crop box \<^verbatim>\<open>#crop-box\<close> lying inside the parent element of the canvas, and on the
  resize grips (class \<^verbatim>\<open>crop-handle\<close>, attribute \<^verbatim>\<open>data-handle\<close>) lying inside the crop box.
  \<open>CropHandle d\<close> is a grip whose \<^verbatim>\<open>dataset.handle\<close> is \<open>d\<close> (\<open>None\<close> when the
  attribute is absent), \<open>CropBody\<close> any other element of the crop box, \<open>Container\<close> an
  element of the canvas's parent outside the crop box, \<open>Elsewhere\<close> the rest of the page.
\<close>

datatype target = CropHandle "string option" | CropBody | Container | Elsewhere

text \<open>
  A pointer event as a handler sees it: the client coordinates, the target, and the two
  boxes the handlers read through \<^verbatim>\<open>getBoundingClientRect()\<close> while the event is handled
  (of the canvas and of its parent element).
\<close>

record pointer_event =
  clientX :: real
  clientY :: real
  target :: target
  canvasRect :: domrect
  containerRect :: domrect

datatype evtype = pointerdown | pointermove | pointerup | pointercancel

datatype handler = OnDrawStart | OnManipulateStart | OnDrawOrManipulateMove | OnDrawOrManipulateEnd

type_synonym listeners = "(evtype \<times> handler) list"

text \<open>The crop box element: the class \<^verbatim>\<open>hidden\<close>, the inline style and the listeners.\<close>

record crop_box =
  hidden :: bool
  translate_x :: real
  translate_y :: real
  style_width :: real
  style_height :: real
  box_listeners :: listeners

text \<open>
  The fields of a \<^verbatim>\<open>CropManager\<close> together with the parts of the page it mutates:
  the canvas, the crop box, and the listeners on the canvas's parent and on the window.
  \<open>activeHandle\<close> is \<open>None\<close> for \<^verbatim>\<open>null\<close> and \<^verbatim>\<open>undefined\<close>.
\<close>

record 'px crop_manager =
  cropRect :: rect
  activeHandle :: "string option"
  isManipulating :: bool
  isDrawing :: bool
  isCropDefined :: bool
  startPointer :: point
  startCropRect :: rect
  canvasEl :: "'px canvas"
  cropBoxEl :: crop_box
  parent_listeners :: listeners
  window_listeners :: listeners

subsection \<open>Listeners\<close>

text \<open>
  \<^verbatim>\<open>addEventListener\<close> ignores a listener that is already registered for the type;
  \<^verbatim>\<open>removeEventListener\<close> removes it if present.
\<close>

definition addEventListener :: "listeners \<Rightarrow> evtype \<Rightarrow> handler \<Rightarrow> listeners" where
  "addEventListener ls t h = (if (t, h) \<in> set ls then ls else ls @ [(t, h)])"

definition removeEventListener :: "listeners \<Rightarrow> evtype \<Rightarrow> handler \<Rightarrow> listeners" where
  "removeEventListener ls t h = removeAll (t, h) ls"

subsection \<open>The class\<close>

text \<open>The field initialisers and the constructor (lines 266--280), on a given page.\<close>

definition new_CropManager :: "crop_box \<Rightarrow> 'px canvas \<Rightarrow> listeners \<Rightarrow> listeners \<Rightarrow> 'px crop_manager" where
  "new_CropManager box cv pls wls =
     \<lparr>cropRect = \<lparr>rect_x = 0, rect_y = 0, rect_width = 0, rect_height = 0\<rparr>,
      activeHandle = None,
      isManipulating = False,
      isDrawing = False,
      isCropDefined = False,
      startPointer = \<lparr>point_x = 0, point_y = 0\<rparr>,
      startCropRect = \<lparr>rect_x = 0, rect_y = 0, rect_width = 0, rect_height = 0\<rparr>,
      canvasEl = cv,
      cropBoxEl = box,
      parent_listeners = pls,
      window_listeners = wls\<rparr>"

definition clear :: "'px crop_manager \<Rightarrow> 'px crop_manager" where
  "clear s =
     s\<lparr>isCropDefined := False,
       isDrawing := False,
       isManipulating := False,
       activeHandle := None,
       cropBoxEl := (cropBoxEl s)
         \<lparr>hidden := True,
          box_listeners := removeEventListener (box_listeners (cropBoxEl s)) pointerdown OnManipulateStart\<rparr>\<rparr>"

definition activate :: "'px crop_manager \<Rightarrow> 'px crop_manager" where
  "activate s =
     (let s1 = clear s
      in s1\<lparr>parent_listeners := addEventListener (parent_listeners s1) pointerdown OnDrawStart\<rparr>)"

definition deactivate :: "'px crop_manager \<Rightarrow> 'px crop_manager" where
  "deactivate s =
     (let s1 = clear s;
          s2 = s1\<lparr>parent_listeners := removeEventListener (parent_listeners s1) pointerdown OnDrawStart\<rparr>;
          s3 = s2\<lparr>window_listeners := removeEventListener (window_listeners s2) pointermove OnDrawOrManipulateMove\<rparr>;
          s4 = s3\<lparr>window_listeners := removeEventListener (window_listeners s3) pointerup OnDrawOrManipulateEnd\<rparr>
      in s4\<lparr>window_listeners := removeEventListener (window_listeners s4) pointercancel OnDrawOrManipulateEnd\<rparr>)"

definition isCropped :: "'px crop_manager \<Rightarrow> bool" where
  "isCropped s = isCropDefined s"

definition getNativePointerPosition :: "'px crop_manager \<Rightarrow> pointer_event \<Rightarrow> point" where
  "getNativePointerPosition s e =
     (let scale = real (canvas_width (canvasEl s)) / dr_width (canvasRect e);
          px = (clientX e - dr_left (canvasRect e)) * scale;
          py = (clientY e - dr_top (canvasRect e)) * scale
      in \<lparr>point_x = max 0 (min px (real (canvas_width (canvasEl s)))),
          point_y = max 0 (min py (real (canvas_height (canvasEl s))))\<rparr>)"

text \<open>The three window-level registrations that open a gesture, and their removal.\<close>

definition add_gesture_listeners :: "listeners \<Rightarrow> listeners" where
  "add_gesture_listeners ls =
     addEventListener
       (addEventListener
          (addEventListener ls pointermove OnDrawOrManipulateMove)
          pointerup OnDrawOrManipulateEnd)
       pointercancel OnDrawOrManipulateEnd"

definition remove_gesture_listeners :: "listeners \<Rightarrow> listeners" where
  "remove_gesture_listeners ls =
     removeEventListener
       (removeEventListener
          (removeEventListener ls pointermove OnDrawOrManipulateMove)
          pointerup OnDrawOrManipulateEnd)
       pointercancel OnDrawOrManipulateEnd"

text \<open>\<^verbatim>\<open>(e.target as HTMLElement).closest('#crop-box')\<close> is non-null.\<close>

fun in_crop_box :: "target \<Rightarrow> bool" where
  "in_crop_box (CropHandle d) = True"
| "in_crop_box CropBody = True"
| "in_crop_box Container = False"
| "in_crop_box Elsewhere = False"

definition onDrawStart :: "'px crop_manager \<Rightarrow> pointer_event \<Rightarrow> 'px crop_manager" where
  "onDrawStart s e =
     (if in_crop_box (target e) then s
      else
        let s1 = clear s;
            s2 = s1\<lparr>isDrawing := True\<rparr>;
            s3 = s2\<lparr>startPointer := getNativePointerPosition s2 e\<rparr>;
            s4 = s3\<lparr>cropRect := \<lparr>rect_x = point_x (startPointer s3), rect_y = point_y (startPointer s3),
                                 rect_width = 0, rect_height = 0\<rparr>\<rparr>
        in s4\<lparr>window_listeners := add_gesture_listeners (window_listeners s4)\<rparr>)"

text \<open>
  \<^verbatim>\<open>target.classList.contains('crop-handle') ? target.dataset.handle! : 'move'\<close>.
  The handler is registered on the crop box only, so its target lies in the crop box.
\<close>

fun handle_of :: "target \<Rightarrow> string option" where
  "handle_of (CropHandle d) = d"
| "handle_of t = Some ''move''"

definition onManipulateStart :: "'px crop_manager \<Rightarrow> pointer_event \<Rightarrow> 'px crop_manager" where
  "onManipulateStart s e =
     (let s1 = s\<lparr>isManipulating := True\<rparr>;
          s2 = s1\<lparr>startPointer := getNativePointerPosition s1 e\<rparr>;
          s3 = s2\<lparr>startCropRect := cropRect s2\<rparr>;
          s4 = s3\<lparr>activeHandle := handle_of (target e)\<rparr>
      in s4\<lparr>window_listeners := add_gesture_listeners (window_listeners s4)\<rparr>)"

text \<open>The drawing branch of \<^verbatim>\<open>onDrawOrManipulateMove\<close> (lines 377--391).\<close>

definition draw :: "'px crop_manager \<Rightarrow> point \<Rightarrow> 'px crop_manager" where
  "draw s currentPointer =
     (let deltaX = point_x currentPointer - point_x (startPointer s);
          deltaY = point_y currentPointer - point_y (startPointer s);
          s1 = (if \<not> isCropDefined s \<and> (\<bar>deltaX\<bar> > 5 \<or> \<bar>deltaY\<bar> > 5)
                then s\<lparr>isCropDefined := True,
                       cropBoxEl := (cropBoxEl s)
                         \<lparr>hidden := False,
                          box_listeners := addEventListener (box_listeners (cropBoxEl s)) pointerdown OnManipulateStart\<rparr>\<rparr>
                else s)
      in if isCropDefined s1
         then s1\<lparr>cropRect :=
                   \<lparr>rect_x = (if deltaX > 0 then point_x (startPointer s1) else point_x currentPointer),
                    rect_y = (if deltaY > 0 then point_y (startPointer s1) else point_y currentPointer),
                    rect_width = \<bar>deltaX\<bar>,
                    rect_height = \<bar>deltaY\<bar>\<rparr>\<rparr>
         else s1)"

text \<open>
  The resize rules (lines 402--411), applied in the source's order to the current
  rectangle \<open>r\<close>; \<open>a\<close> is \<^verbatim>\<open>startCropRect\<close> and \<open>h\<close> the handle identity.
  \<^verbatim>\<open>h.includes('e')\<close> with a one-character argument holds iff the character occurs in \<open>h\<close>.
\<close>

definition resize :: "string \<Rightarrow> rect \<Rightarrow> real \<Rightarrow> real \<Rightarrow> rect \<Rightarrow> rect" where
  "resize h a nativeDx nativeDy r =
     (let r1 = (if CHR ''e'' \<in> set h then r\<lparr>rect_width := rect_width a + nativeDx\<rparr> else r);
          r2 = (if CHR ''w'' \<in> set h
                then r1\<lparr>rect_width := rect_width a - nativeDx, rect_x := rect_x a + nativeDx\<rparr> else r1);
          r3 = (if CHR ''s'' \<in> set h then r2\<lparr>rect_height := rect_height a + nativeDy\<rparr> else r2)
      in if CHR ''n'' \<in> set h
         then r3\<lparr>rect_height := rect_height a - nativeDy, rect_y := rect_y a + nativeDy\<rparr> else r3)"

text \<open>
  The manipulating branch (lines 396--412), given the two deltas of lines 393--394.
  A handle that is \<^verbatim>\<open>null\<close>, \<^verbatim>\<open>undefined\<close> or the empty string is falsy.
\<close>

definition manipulate :: "'px crop_manager \<Rightarrow> real \<Rightarrow> real \<Rightarrow> 'px crop_manager" where
  "manipulate s nativeDx nativeDy =
     (if activeHandle s = Some ''move'' then
        let newX = rect_x (startCropRect s) + nativeDx;
            newY = rect_y (startCropRect s) + nativeDy;
            s1 = s\<lparr>cropRect := (cropRect s)
                   \<lparr>rect_x := max 0 (min newX (real (canvas_width (canvasEl s)) - rect_width (cropRect s)))\<rparr>\<rparr>
        in s1\<lparr>cropRect := (cropRect s1)
               \<lparr>rect_y := max 0 (min newY (real (canvas_height (canvasEl s1)) - rect_height (cropRect s1)))\<rparr>\<rparr>
      else
        case activeHandle s of
          None \<Rightarrow> s
        | Some h \<Rightarrow>
            if h \<noteq> [] then s\<lparr>cropRect := resize h (startCropRect s) nativeDx nativeDy (cropRect s)\<rparr>
            else s)"

definition constrainCropBox :: "'px crop_manager \<Rightarrow> 'px crop_manager" where
  "constrainCropBox s =
     (let minSize = 30;
          canvasWidth = real (canvas_width (canvasEl s));
          canvasHeight = real (canvas_height (canvasEl s));
          r = cropRect s;
          r1 = (if rect_x r < 0 then r\<lparr>rect_width := rect_width r + rect_x r, rect_x := 0\<rparr> else r);
          r2 = (if rect_y r1 < 0 then r1\<lparr>rect_height := rect_height r1 + rect_y r1, rect_y := 0\<rparr> else r1);
          r3 = (if rect_x r2 + rect_width r2 > canvasWidth
                then r2\<lparr>rect_width := canvasWidth - rect_x r2\<rparr> else r2);
          r4 = (if rect_y r3 + rect_height r3 > canvasHeight
                then r3\<lparr>rect_height := canvasHeight - rect_y r3\<rparr> else r3);
          r5 = r4\<lparr>rect_width := max (rect_width r4) minSize\<rparr>;
          r6 = r5\<lparr>rect_height := max (rect_height r5) minSize\<rparr>
      in s\<lparr>cropRect := r6\<rparr>)"

definition updateStyle :: "'px crop_manager \<Rightarrow> pointer_event \<Rightarrow> 'px crop_manager" where
  "updateStyle s e =
     (let canvasOffsetX = dr_left (canvasRect e) - dr_left (containerRect e);
          canvasOffsetY = dr_top (canvasRect e) - dr_top (containerRect e);
          scale = dr_width (canvasRect e) / real (canvas_width (canvasEl s));
          displayX = canvasOffsetX + rect_x (cropRect s) * scale;
          displayY = canvasOffsetY + rect_y (cropRect s) * scale
      in s\<lparr>cropBoxEl := (cropBoxEl s)
             \<lparr>translate_x := displayX,
              translate_y := displayY,
              style_width := rect_width (cropRect s) * scale,
              style_height := rect_height (cropRect s) * scale\<rparr>\<rparr>)"

definition onDrawOrManipulateMove :: "'px crop_manager \<Rightarrow> pointer_event \<Rightarrow> 'px crop_manager" where
  "onDrawOrManipulateMove s e =
     (let currentPointer = getNativePointerPosition s e;
          s1 = (if isDrawing s then draw s currentPointer
                else if isManipulating s then
                  manipulate s (point_x currentPointer - point_x (startPointer s))
                               (point_y currentPointer - point_y (startPointer s))
                else s)
      in if isCropDefined s1 then updateStyle (constrainCropBox s1) e else s1)"

definition onDrawOrManipulateEnd :: "'px crop_manager \<Rightarrow> pointer_event \<Rightarrow> 'px crop_manager" where
  "onDrawOrManipulateEnd s e =
     (let s1 = (if isDrawing s \<and> \<not> isCropDefined s then clear s else s);
          s2 = s1\<lparr>isDrawing := False, isManipulating := False, activeHandle := None\<rparr>
      in s2\<lparr>window_listeners := remove_gesture_listeners (window_listeners s2)\<rparr>)"

subsection \<open>The constraint steps as the specification words them\<close>

text \<open>
  These three definitions follow section 4.2 of the specification, not the source; they
  are compared with \<open>constrainCropBox\<close> below.
  Step 1: a negative origin is clamped to 0 and the size shrinks by the overflow.
  Step 2: the far edge \<open>origin + size\<close> is clamped to the surface bound, the size shrinks.
  Step 3: a size below the minimum grows to the minimum.
\<close>

definition spec_clamp_origin :: "rect \<Rightarrow> rect" where
  "spec_clamp_origin r =
     (let overflowX = max 0 (- rect_x r); overflowY = max 0 (- rect_y r)
      in \<lparr>rect_x = rect_x r + overflowX, rect_y = rect_y r + overflowY,
          rect_width = rect_width r - overflowX, rect_height = rect_height r - overflowY\<rparr>)"

definition spec_clamp_far_edge :: "real \<Rightarrow> real \<Rightarrow> rect \<Rightarrow> rect" where
  "spec_clamp_far_edge surfaceWidth surfaceHeight r =
     \<lparr>rect_x = rect_x r, rect_y = rect_y r,
      rect_width = min (rect_x r + rect_width r) surfaceWidth - rect_x r,
      rect_height = min (rect_y r + rect_height r) surfaceHeight - rect_y r\<rparr>"

definition spec_min_size :: "real \<Rightarrow> rect \<Rightarrow> rect" where
  "spec_min_size m r =
     \<lparr>rect_x = rect_x r, rect_y = rect_y r,
      rect_width = (if rect_width r < m then m else rect_width r),
      rect_height = (if rect_height r < m then m else rect_height r)\<rparr>"

subsection \<open>Handle identities and example pages\<close>

text \<open>
  Modelled from the spec: the eight resize handle identities (section 3: n, s, e, w, ne,
  nw, se, sw). The markup that carries them as \<^verbatim>\<open>data-handle\<close> attributes is not under
  src/; the class itself accepts any string.
\<close>

definition compass_handles :: "string list" where
  "compass_handles = [''n'', ''s'', ''e'', ''w'', ''ne'', ''nw'', ''se'', ''sw'']"

text \<open>A canvas of the given size with a cleared bitmap, and a page around it: a hidden
  crop box without listeners, a freshly constructed manager.\<close>

definition blank_canvas :: "nat \<Rightarrow> nat \<Rightarrow> 'px canvas" where
  "blank_canvas w h = \<lparr>canvas_width = w, canvas_height = h, pixels = (\<lambda>i j. None)\<rparr>"

definition fresh_manager :: "'px canvas \<Rightarrow> 'px crop_manager" where
  "fresh_manager cv =
     new_CropManager
       \<lparr>hidden = True, translate_x = 0, translate_y = 0, style_width = 0, style_height = 0,
        box_listeners = []\<rparr> cv [] []"

text \<open>A manager in the middle of a manipulation with handle \<open>h\<close>, whose region and
  anchor snapshot are both \<open>r\<close> and whose anchor pointer is \<open>p\<close>.\<close>

definition manipulating_manager :: "'px canvas \<Rightarrow> string \<Rightarrow> rect \<Rightarrow> point \<Rightarrow> 'px crop_manager" where
  "manipulating_manager cv h r p =
     (fresh_manager cv)
       \<lparr>cropRect := r, activeHandle := Some h, isManipulating := True, isCropDefined := True,
        startPointer := p, startCropRect := r\<rparr>"

text \<open>A pointer event at client position \<open>(cx, cy)\<close> on a page whose canvas and
  container are both rendered at the client origin with size \<open>rw \<times> rh\<close>.\<close>

definition at_origin_event :: "real \<Rightarrow> real \<Rightarrow> target \<Rightarrow> real \<Rightarrow> real \<Rightarrow> pointer_event" where
  "at_origin_event cx cy t rw rh =
     \<lparr>clientX = cx, clientY = cy, target = t,
      canvasRect = \<lparr>dr_left = 0, dr_top = 0, dr_width = rw, dr_height = rh\<rparr>,
      containerRect = \<lparr>dr_left = 0, dr_top = 0, dr_width = rw, dr_height = rh\<rparr>\<rparr>"

text \<open>Clamping a value to the interval \<open>[lo, hi]\<close>, as the specification words the
  \<^verbatim>\<open>move\<close> rule; compared with the source's \<^verbatim>\<open>Math.max(0, Math.min(v, hi))\<close> below.\<close>

definition spec_clamp :: "real \<Rightarrow> real \<Rightarrow> real \<Rightarrow> real" where
  "spec_clamp lo hi v = (if v < lo then lo else if hi < v then hi else v)"

subsection \<open>The host's canvas primitives\<close>

text \<open>
  Modelled from the spec: the browser's canvas operations that \<^verbatim>\<open>applyCropToCanvas\<close> calls
  are not code of the repository. Section 6 of the specification asks the host for ``a
  raster surface with queryable intrinsic pixel dimensions and a drawing primitive capable
  of pixel-exact region copy'', section 4.4 for nearest resampling. Accordingly:
  \<^item> \<^verbatim>\<open>document.createElement('canvas')\<close> is a cleared canvas of the default size 300 x 150;
  \<^item> assigning a number to \<^verbatim>\<open>width\<close> or \<^verbatim>\<open>height\<close> stores its integer part (the attribute
    is an unsigned integer; only values from 0 to below \<open>2^31\<close> occur here) and clears
    the bitmap;
  \<^item> \<^verbatim>\<open>drawImage(src, sx, sy, sw, sh, dx, dy, dw, dh)\<close> paints a pixel of the destination
    when its centre lies in the destination rectangle, with the source pixel under the
    corresponding point of the source rectangle, if that point lies on the source bitmap;
    a transparent source pixel leaves the destination as it is. Colours are opaque or
    fully transparent; blending of partly transparent colours is not modelled.
  In the browser \<^verbatim>\<open>drawImage\<close> raises when its source is a canvas without pixels. The
  model has no such branch: a defined region has passed \<open>constrainCropBox\<close>, so both its
  sizes are at least 30, and the results on \<open>applyCropToCanvas\<close> below are stated for
  sizes of at least 1.
\<close>

definition createElement_canvas :: "'px canvas" where
  "createElement_canvas = blank_canvas 300 150"

definition set_width :: "'px canvas \<Rightarrow> real \<Rightarrow> 'px canvas" where
  "set_width c v = \<lparr>canvas_width = nat \<lfloor>v\<rfloor>, canvas_height = canvas_height c, pixels = (\<lambda>i j. None)\<rparr>"

definition set_height :: "'px canvas \<Rightarrow> real \<Rightarrow> 'px canvas" where
  "set_height c v = \<lparr>canvas_width = canvas_width c, canvas_height = nat \<lfloor>v\<rfloor>, pixels = (\<lambda>i j. None)\<rparr>"

definition drawImage ::
  "'px canvas \<Rightarrow> 'px canvas \<Rightarrow> real \<Rightarrow> real \<Rightarrow> real \<Rightarrow> real \<Rightarrow> real \<Rightarrow> real \<Rightarrow> real \<Rightarrow> real \<Rightarrow> 'px canvas" where
  "drawImage dst src sx sy sw sh dx dy dw dh =
     dst\<lparr>pixels := (\<lambda>i j.
        let cx = real i + 1 / 2; cy = real j + 1 / 2;
            u = sx + (cx - dx) * sw / dw; v = sy + (cy - dy) * sh / dh
        in if i < canvas_width dst \<and> j < canvas_height dst \<and> 0 < sw \<and> 0 < sh \<and> 0 < dw \<and> 0 < dh \<and>
              dx \<le> cx \<and> cx < dx + dw \<and> dy \<le> cy \<and> cy < dy + dh \<and>
              0 \<le> u \<and> u < real (canvas_width src) \<and> 0 \<le> v \<and> v < real (canvas_height src)
           then (case pixels src (nat \<lfloor>u\<rfloor>) (nat \<lfloor>v\<rfloor>) of
                   None \<Rightarrow> pixels dst i j
                 | Some c \<Rightarrow> Some c)
           else pixels dst i j)\<rparr>"

text \<open>The three-argument form \<^verbatim>\<open>drawImage(src, dx, dy)\<close> copies the whole source at its own size.\<close>

definition drawImage3 :: "'px canvas \<Rightarrow> 'px canvas \<Rightarrow> real \<Rightarrow> real \<Rightarrow> 'px canvas" where
  "drawImage3 dst src dx dy =
     drawImage dst src 0 0 (real (canvas_width src)) (real (canvas_height src))
       dx dy (real (canvas_width src)) (real (canvas_height src))"

subsection \<open>Commit\<close>

definition applyCropToCanvas :: "'px crop_manager \<Rightarrow> 'px crop_manager" where
  "applyCropToCanvas s =
     (if \<not> isCropped s then s
      else
        let c0 = createElement_canvas;
            c1 = set_width c0 (rect_width (cropRect s));
            c2 = set_height c1 (rect_height (cropRect s));
            croppedCanvas =
              drawImage c2 (canvasEl s)
                (rect_x (cropRect s)) (rect_y (cropRect s)) (rect_width (cropRect s)) (rect_height (cropRect s))
                0 0 (rect_width (cropRect s)) (rect_height (cropRect s));
            e1 = set_width (canvasEl s) (real (canvas_width croppedCanvas));
            e2 = set_height e1 (real (canvas_height croppedCanvas))
        in s\<lparr>canvasEl := drawImage3 e2 croppedCanvas 0 0\<rparr>)"

subsection \<open>Event dispatch\<close>

text \<open>
  The browser delivers a pointer event along the path from its target up to the window:
  the crop box (when the target lies in it), the parent of the canvas (when the target
  lies in it), the window. On each node the listeners registered for the event's type run
  in registration order; the event stops after a node on which a listener called
  \<^verbatim>\<open>stopPropagation()\<close>. Only the listeners the class registers are on the page.
\<close>

fun call :: "handler \<Rightarrow> 'px crop_manager \<Rightarrow> pointer_event \<Rightarrow> 'px crop_manager" where
  "call OnDrawStart s e = onDrawStart s e"
| "call OnManipulateStart s e = onManipulateStart s e"
| "call OnDrawOrManipulateMove s e = onDrawOrManipulateMove s e"
| "call OnDrawOrManipulateEnd s e = onDrawOrManipulateEnd s e"

text \<open>Whether the handler calls \<^verbatim>\<open>e.stopPropagation()\<close>: \<^verbatim>\<open>onDrawStart\<close> past its early
  return, \<^verbatim>\<open>onManipulateStart\<close> always, the other two never.\<close>

fun stops :: "handler \<Rightarrow> pointer_event \<Rightarrow> bool" where
  "stops OnDrawStart e = (\<not> in_crop_box (target e))"
| "stops OnManipulateStart e = True"
| "stops OnDrawOrManipulateMove e = False"
| "stops OnDrawOrManipulateEnd e = False"

definition handlers_for :: "listeners \<Rightarrow> evtype \<Rightarrow> handler list" where
  "handlers_for ls t = map snd (filter (\<lambda>l. fst l = t) ls)"

fun run_listeners :: "handler list \<Rightarrow> pointer_event \<Rightarrow> 'px crop_manager \<Rightarrow> 'px crop_manager \<times> bool" where
  "run_listeners [] e s = (s, False)"
| "run_listeners (h # hs) e s =
     (let r = run_listeners hs e (call h s e) in (fst r, stops h e \<or> snd r))"

definition dispatch :: "evtype \<Rightarrow> pointer_event \<Rightarrow> 'px crop_manager \<Rightarrow> 'px crop_manager" where
  "dispatch t e s =
     (let r1 = (if in_crop_box (target e)
                then run_listeners (handlers_for (box_listeners (cropBoxEl s)) t) e s
                else (s, False));
          r2 = (if snd r1 \<or> target e = Elsewhere then r1
                else run_listeners (handlers_for (parent_listeners (fst r1)) t) e (fst r1))
      in if snd r2 then fst r2
         else fst (run_listeners (handlers_for (window_listeners (fst r2)) t) e (fst r2)))"

text \<open>What can happen to the editor: a pointer event, or a call of its public interface
  by the application.\<close>

datatype event =
    Pointer evtype pointer_event
  | Activate
  | Deactivate
  | Clear
  | ApplyCropToCanvas

fun step :: "'px crop_manager \<Rightarrow> event \<Rightarrow> 'px crop_manager" where
  "step s (Pointer t e) = dispatch t e s"
| "step s Activate = activate s"
| "step s Deactivate = deactivate s"
| "step s Clear = clear s"
| "step s ApplyCropToCanvas = applyCropToCanvas s"

definition run :: "'px crop_manager \<Rightarrow> event list \<Rightarrow> 'px crop_manager" where
  "run s evs = foldl step s evs"

text \<open>The window listeners of an open gesture, in registration order.\<close>

definition gesture_listeners :: listeners where
  "gesture_listeners =
     [(pointermove, OnDrawOrManipulateMove), (pointerup, OnDrawOrManipulateEnd),
      (pointercancel, OnDrawOrManipulateEnd)]"

text \<open>The Idle mode of the specification: neither drawing nor manipulating, no handle.\<close>

definition idle :: "'px crop_manager \<Rightarrow> bool" where
  "idle s = (\<not> isDrawing s \<and> \<not> isManipulating s \<and> activeHandle s = None)"

text \<open>
  The states the editor can be in on a page that carries no listeners but its own: each
  node has either none or exactly the listeners the class registers there, and outside
  the Idle mode the window listeners are registered.
\<close>

definition session_ok :: "'px crop_manager \<Rightarrow> bool" where
  "session_ok s =
     ((window_listeners s = [] \<or> window_listeners s = gesture_listeners) \<and>
      (parent_listeners s = [] \<or> parent_listeners s = [(pointerdown, OnDrawStart)]) \<and>
      (box_listeners (cropBoxEl s) = [] \<or> box_listeners (cropBoxEl s) = [(pointerdown, OnManipulateStart)]) \<and>
      (idle s \<or> window_listeners s = gesture_listeners))"

text \<open>An opaque test picture whose pixel at \<open>(i, j)\<close> carries the number \<open>i + w * j\<close>.\<close>

definition numbered_canvas :: "nat \<Rightarrow> nat \<Rightarrow> nat canvas" where
  "numbered_canvas w h =
     \<lparr>canvas_width = w, canvas_height = h,
      pixels = (\<lambda>i j. if i < w \<and> j < h then Some (i + w * j) else None)\<rparr>"

subsection \<open>Where the crop box appears\<close>

text \<open>
  Modelled from the spec: the on-screen position that \<^verbatim>\<open>toDisplay\<close> stands for. The markup
  and the style sheet are not under src/; \<open>updateStyle\<close> measures the translation of the
  crop box from the box of the canvas's parent, so the crop box is laid out at that
  parent's origin and appears, in the client coordinates a pointer event reports, at the
  parent's client origin plus the translation.
\<close>

definition crop_box_client_origin :: "crop_box \<Rightarrow> pointer_event \<Rightarrow> point" where
  "crop_box_client_origin b e =
     \<lparr>point_x = dr_left (containerRect e) + translate_x b,
      point_y = dr_top (containerRect e) + translate_y b\<rparr>"

subsection \<open>The manipulating branch with its possible fault\<close>





section \<open>Constraint enforcement\<close>

lemma constrain_rect:
  "cropRect (constrainCropBox s) =
     (let W = real (canvas_width (canvasEl s)); H = real (canvas_height (canvasEl s));
          r = cropRect s;
          x1 = max 0 (rect_x r); y1 = max 0 (rect_y r);
          w1 = (if rect_x r < 0 then rect_width r + rect_x r else rect_width r);
          h1 = (if rect_y r < 0 then rect_height r + rect_y r else rect_height r)
      in \<lparr>rect_x = x1, rect_y = y1,
          rect_width = max (min w1 (W - x1)) 30,
          rect_height = max (min h1 (H - y1)) 30\<rparr>)"
  by (cases "cropRect s") (auto simp: constrainCropBox_def Let_def max_def min_def)

lemma constrain_frame:
  "constrainCropBox s = s\<lparr>cropRect := cropRect (constrainCropBox s)\<rparr>"
  by (simp add: constrainCropBox_def Let_def)

lemma constrain_x: "rect_x (cropRect (constrainCropBox s)) = max 0 (rect_x (cropRect s))"
  unfolding constrain_rect by (simp add: Let_def)

lemma constrain_y: "rect_y (cropRect (constrainCropBox s)) = max 0 (rect_y (cropRect s))"
  unfolding constrain_rect by (simp add: Let_def)

lemma constrain_width:
  "rect_width (cropRect (constrainCropBox s)) =
     max (min (if rect_x (cropRect s) < 0 then rect_width (cropRect s) + rect_x (cropRect s)
               else rect_width (cropRect s))
              (real (canvas_width (canvasEl s)) - max 0 (rect_x (cropRect s)))) 30"
  unfolding constrain_rect by (simp add: Let_def)

lemma constrain_height:
  "rect_height (cropRect (constrainCropBox s)) =
     max (min (if rect_y (cropRect s) < 0 then rect_height (cropRect s) + rect_y (cropRect s)
               else rect_height (cropRect s))
              (real (canvas_height (canvasEl s)) - max 0 (rect_y (cropRect s)))) 30"
  unfolding constrain_rect by (simp add: Let_def)

lemma far_edge_or_floor:
  fixes x w W :: real
  shows "max 0 x + max (min w (W - max 0 x)) 30 \<le> W \<or>
         max (min w (W - max 0 x)) 30 = 30 \<and> W < max 0 x + 30"
  by (auto simp: max_def min_def)

text \<open>
  Claim C1, as the code has it. \<open>constrainCropBox\<close> clamps the origin at 0 on both axes
  and leaves both sizes at least 30. On each axis the far edge \<open>origin + size\<close> becomes
  the incoming far edge capped at the canvas bound, but at least clamped origin + 30.
  So it is within the canvas exactly when the clamped origin is at most canvas size - 30.
  Otherwise the size is exactly 30 and the far edge lies beyond the canvas; the origin is
  never clamped to the far bound. This is so on a canvas of any size.
\<close>

theorem constrainCropBox_bounds:
  "rect_x (cropRect (constrainCropBox s)) = max 0 (rect_x (cropRect s)) \<and>
   rect_y (cropRect (constrainCropBox s)) = max 0 (rect_y (cropRect s)) \<and>
   0 \<le> rect_x (cropRect (constrainCropBox s)) \<and>
   0 \<le> rect_y (cropRect (constrainCropBox s)) \<and>
   30 \<le> rect_width (cropRect (constrainCropBox s)) \<and>
   30 \<le> rect_height (cropRect (constrainCropBox s)) \<and>
   rect_x (cropRect (constrainCropBox s)) + rect_width (cropRect (constrainCropBox s)) =
     max (min (rect_x (cropRect s) + rect_width (cropRect s)) (real (canvas_width (canvasEl s))))
         (max 0 (rect_x (cropRect s)) + 30) \<and>
   rect_y (cropRect (constrainCropBox s)) + rect_height (cropRect (constrainCropBox s)) =
     max (min (rect_y (cropRect s) + rect_height (cropRect s)) (real (canvas_height (canvasEl s))))
         (max 0 (rect_y (cropRect s)) + 30) \<and>
   (if max 0 (rect_x (cropRect s)) + 30 \<le> real (canvas_width (canvasEl s))
    then rect_x (cropRect (constrainCropBox s)) + rect_width (cropRect (constrainCropBox s))
           \<le> real (canvas_width (canvasEl s))
    else rect_width (cropRect (constrainCropBox s)) = 30 \<and>
         real (canvas_width (canvasEl s))
           < rect_x (cropRect (constrainCropBox s)) + rect_width (cropRect (constrainCropBox s))) \<and>
   (if max 0 (rect_y (cropRect s)) + 30 \<le> real (canvas_height (canvasEl s))
    then rect_y (cropRect (constrainCropBox s)) + rect_height (cropRect (constrainCropBox s))
           \<le> real (canvas_height (canvasEl s))
    else rect_height (cropRect (constrainCropBox s)) = 30 \<and>
         real (canvas_height (canvasEl s))
           < rect_y (cropRect (constrainCropBox s)) + rect_height (cropRect (constrainCropBox s)))"
proof -
  have a: "(if max 0 x + 30 \<le> W then max 0 x + max (min w (W - max 0 x)) 30 \<le> W
            else max (min w (W - max 0 x)) 30 = 30 \<and> W < max 0 x + max (min w (W - max 0 x)) 30)"
    for x w W :: real
    by (auto simp: max_def min_def)
  have x: "(if max 0 (rect_x (cropRect s)) + 30 \<le> real (canvas_width (canvasEl s))
    then rect_x (cropRect (constrainCropBox s)) + rect_width (cropRect (constrainCropBox s))
           \<le> real (canvas_width (canvasEl s))
    else rect_width (cropRect (constrainCropBox s)) = 30 \<and>
         real (canvas_width (canvasEl s))
           < rect_x (cropRect (constrainCropBox s)) + rect_width (cropRect (constrainCropBox s)))"
    unfolding constrain_x constrain_width by (rule a)
  have y: "(if max 0 (rect_y (cropRect s)) + 30 \<le> real (canvas_height (canvasEl s))
    then rect_y (cropRect (constrainCropBox s)) + rect_height (cropRect (constrainCropBox s))
           \<le> real (canvas_height (canvasEl s))
    else rect_height (cropRect (constrainCropBox s)) = 30 \<and>
         real (canvas_height (canvasEl s))
           < rect_y (cropRect (constrainCropBox s)) + rect_height (cropRect (constrainCropBox s)))"
    unfolding constrain_y constrain_height by (rule a)
  have e: "max 0 x + max (min (if x < 0 then w + x else w) (W - max 0 x)) 30 =
           max (min (x + w) W) (max 0 x + 30)"
    for x w W :: real
    by (auto simp: max_def min_def)
  have ex: "rect_x (cropRect (constrainCropBox s)) + rect_width (cropRect (constrainCropBox s)) =
     max (min (rect_x (cropRect s) + rect_width (cropRect s)) (real (canvas_width (canvasEl s))))
         (max 0 (rect_x (cropRect s)) + 30)"
    unfolding constrain_x constrain_width by (rule e)
  have ey: "rect_y (cropRect (constrainCropBox s)) + rect_height (cropRect (constrainCropBox s)) =
     max (min (rect_y (cropRect s) + rect_height (cropRect s)) (real (canvas_height (canvasEl s))))
         (max 0 (rect_y (cropRect s)) + 30)"
    unfolding constrain_y constrain_height by (rule e)
  have o: "rect_x (cropRect (constrainCropBox s)) = max 0 (rect_x (cropRect s))"
    "rect_y (cropRect (constrainCropBox s)) = max 0 (rect_y (cropRect s))"
    by (rule constrain_x, rule constrain_y)
  have n: "0 \<le> rect_x (cropRect (constrainCropBox s))" "0 \<le> rect_y (cropRect (constrainCropBox s))"
    by (simp_all add: o)
  have f: "30 \<le> rect_width (cropRect (constrainCropBox s))"
    "30 \<le> rect_height (cropRect (constrainCropBox s))"
    by (simp_all add: constrain_width constrain_height)
  from o n f ex ey x y show ?thesis by (intro conjI)
qed

theorem constrainCropBox_bounds_witness:
  "cropRect (constrainCropBox
      ((fresh_manager (blank_canvas 200 200 :: nat canvas))
         \<lparr>cropRect := \<lparr>rect_x = - 20, rect_y = 10, rect_width = 400, rect_height = 6\<rparr>,
          isCropDefined := True\<rparr>))
     = \<lparr>rect_x = 0, rect_y = 10, rect_width = 200, rect_height = 30\<rparr>"
proof -
  let ?s = "(fresh_manager (blank_canvas 200 200 :: nat canvas))
         \<lparr>cropRect := \<lparr>rect_x = - 20, rect_y = 10, rect_width = 400, rect_height = 6\<rparr>,
          isCropDefined := True\<rparr>"
  note b = constrainCropBox_bounds [of ?s]
  note ev = fresh_manager_def new_CropManager_def blank_canvas_def
  have x: "rect_x (cropRect (constrainCropBox ?s)) = 0"
    using b [THEN conjunct1] by simp
  have y: "rect_y (cropRect (constrainCropBox ?s)) = 10"
    using b [THEN conjunct2, THEN conjunct1] by simp
  have "rect_x (cropRect (constrainCropBox ?s)) + rect_width (cropRect (constrainCropBox ?s)) = 200"
    using b [THEN conjunct2, THEN conjunct2, THEN conjunct2, THEN conjunct2, THEN conjunct2,
        THEN conjunct2, THEN conjunct1]
    by (simp add: ev)
  then have w: "rect_width (cropRect (constrainCropBox ?s)) = 200" using x by simp
  have "rect_y (cropRect (constrainCropBox ?s)) + rect_height (cropRect (constrainCropBox ?s)) = 40"
    using b [THEN conjunct2, THEN conjunct2, THEN conjunct2, THEN conjunct2, THEN conjunct2,
        THEN conjunct2, THEN conjunct2, THEN conjunct1]
    by (simp add: ev)
  then have h: "rect_height (cropRect (constrainCropBox ?s)) = 30" using y by simp
  from x y w h show ?thesis by (cases "cropRect (constrainCropBox ?s)") simp
qed

lemma spec_steps_rect:
  "cropRect (constrainCropBox s) =
     spec_min_size 30
       (spec_clamp_far_edge (real (canvas_width (canvasEl s))) (real (canvas_height (canvasEl s)))
          (spec_clamp_origin (cropRect s)))"
proof -
  have x: "rect_x (cropRect (constrainCropBox s)) = rect_x (spec_min_size 30
       (spec_clamp_far_edge (real (canvas_width (canvasEl s))) (real (canvas_height (canvasEl s)))
          (spec_clamp_origin (cropRect s))))"
    unfolding constrain_x
    by (simp add: spec_min_size_def spec_clamp_far_edge_def spec_clamp_origin_def Let_def max_def)
  have y: "rect_y (cropRect (constrainCropBox s)) = rect_y (spec_min_size 30
       (spec_clamp_far_edge (real (canvas_width (canvasEl s))) (real (canvas_height (canvasEl s)))
          (spec_clamp_origin (cropRect s))))"
    unfolding constrain_y
    by (simp add: spec_min_size_def spec_clamp_far_edge_def spec_clamp_origin_def Let_def max_def)
  have w: "rect_width (cropRect (constrainCropBox s)) = rect_width (spec_min_size 30
       (spec_clamp_far_edge (real (canvas_width (canvasEl s))) (real (canvas_height (canvasEl s)))
          (spec_clamp_origin (cropRect s))))"
    unfolding constrain_width
    by (simp add: spec_min_size_def spec_clamp_far_edge_def spec_clamp_origin_def Let_def max_def min_def)
  have h: "rect_height (cropRect (constrainCropBox s)) = rect_height (spec_min_size 30
       (spec_clamp_far_edge (real (canvas_width (canvasEl s))) (real (canvas_height (canvasEl s)))
          (spec_clamp_origin (cropRect s))))"
    unfolding constrain_height
    by (simp add: spec_min_size_def spec_clamp_far_edge_def spec_clamp_origin_def Let_def max_def min_def)
  from x y w h show ?thesis by (rule rect.equality) simp
qed

text \<open>
  Claim C2. \<open>constrainCropBox\<close> is the composition, in this order, of the three steps of
  the specification: origin clamp, far-edge clamp, minimum size 30; it touches nothing but
  the rectangle. Step 1 keeps the far edge where it was, steps 1 and 2 never grow the
  size, step 3 never shrinks it, and since step 3 runs last the result has both sizes at
  least 30.
\<close>

theorem constrainCropBox_steps:
  "constrainCropBox s =
     s\<lparr>cropRect :=
         spec_min_size 30
           (spec_clamp_far_edge (real (canvas_width (canvasEl s))) (real (canvas_height (canvasEl s)))
              (spec_clamp_origin (cropRect s)))\<rparr> \<and>
   rect_x (spec_clamp_origin r) + rect_width (spec_clamp_origin r) = rect_x r + rect_width r \<and>
   rect_y (spec_clamp_origin r) + rect_height (spec_clamp_origin r) = rect_y r + rect_height r \<and>
   rect_width (spec_clamp_origin r) \<le> rect_width r \<and>
   rect_height (spec_clamp_origin r) \<le> rect_height r \<and>
   rect_width (spec_clamp_far_edge W H r) \<le> rect_width r \<and>
   rect_height (spec_clamp_far_edge W H r) \<le> rect_height r \<and>
   rect_width r \<le> rect_width (spec_min_size 30 r) \<and>
   rect_height r \<le> rect_height (spec_min_size 30 r) \<and>
   30 \<le> rect_width (cropRect (constrainCropBox s)) \<and>
   30 \<le> rect_height (cropRect (constrainCropBox s))"
proof -
  have steps: "constrainCropBox s =
     s\<lparr>cropRect :=
         spec_min_size 30
           (spec_clamp_far_edge (real (canvas_width (canvasEl s))) (real (canvas_height (canvasEl s)))
              (spec_clamp_origin (cropRect s)))\<rparr>"
    using constrain_frame [of s] by (simp add: spec_steps_rect)
  have floor: "30 \<le> rect_width (cropRect (constrainCropBox s)) \<and>
               30 \<le> rect_height (cropRect (constrainCropBox s))"
    by (simp add: constrain_width constrain_height)
  have parts: "rect_x (spec_clamp_origin r) + rect_width (spec_clamp_origin r) = rect_x r + rect_width r \<and>
   rect_y (spec_clamp_origin r) + rect_height (spec_clamp_origin r) = rect_y r + rect_height r \<and>
   rect_width (spec_clamp_origin r) \<le> rect_width r \<and>
   rect_height (spec_clamp_origin r) \<le> rect_height r \<and>
   rect_width (spec_clamp_far_edge W H r) \<le> rect_width r \<and>
   rect_height (spec_clamp_far_edge W H r) \<le> rect_height r \<and>
   rect_width r \<le> rect_width (spec_min_size 30 r) \<and>
   rect_height r \<le> rect_height (spec_min_size 30 r)"
    by (auto simp: spec_min_size_def spec_clamp_far_edge_def spec_clamp_origin_def Let_def min_def)
  from steps floor parts show ?thesis by blast
qed

section \<open>Pointer moves\<close>

lemma manipulate_frame:
  "manipulate s dx dy = s\<lparr>cropRect := cropRect (manipulate s dx dy)\<rparr>"
  by (simp add: manipulate_def Let_def split: option.splits)

lemma move_handler_manipulating:
  assumes "isManipulating s" and "\<not> isDrawing s"
  shows "onDrawOrManipulateMove s e =
     (let m = manipulate s
                (point_x (getNativePointerPosition s e) - point_x (startPointer s))
                (point_y (getNativePointerPosition s e) - point_y (startPointer s))
      in if isCropDefined s then updateStyle (constrainCropBox m) e else m)"
proof -
  have "isCropDefined (manipulate s dx dy) = isCropDefined s" for dx dy
    by (subst manipulate_frame) simp
  with assms show ?thesis by (simp add: onDrawOrManipulateMove_def Let_def)
qed

lemma manipulate_compass:
  assumes "h \<in> set compass_handles" and "activeHandle s = Some h"
  shows "cropRect (manipulate s dx dy) = resize h (startCropRect s) dx dy (cropRect s)"
  using assms by (auto simp: manipulate_def compass_handles_def)

lemma updateStyle_frame:
  "cropRect (updateStyle s e) = cropRect s \<and> startCropRect (updateStyle s e) = startCropRect s \<and>
   startPointer (updateStyle s e) = startPointer s \<and> activeHandle (updateStyle s e) = activeHandle s \<and>
   isManipulating (updateStyle s e) = isManipulating s \<and> isDrawing (updateStyle s e) = isDrawing s \<and>
   isCropDefined (updateStyle s e) = isCropDefined s \<and> canvasEl (updateStyle s e) = canvasEl s \<and>
   parent_listeners (updateStyle s e) = parent_listeners s \<and>
   window_listeners (updateStyle s e) = window_listeners s \<and>
   hidden (cropBoxEl (updateStyle s e)) = hidden (cropBoxEl s) \<and>
   box_listeners (cropBoxEl (updateStyle s e)) = box_listeners (cropBoxEl s)"
  by (simp add: updateStyle_def Let_def)

lemma constrain_fields:
  "startCropRect (constrainCropBox s) = startCropRect s \<and>
   startPointer (constrainCropBox s) = startPointer s \<and> activeHandle (constrainCropBox s) = activeHandle s \<and>
   isManipulating (constrainCropBox s) = isManipulating s \<and> isDrawing (constrainCropBox s) = isDrawing s \<and>
   isCropDefined (constrainCropBox s) = isCropDefined s \<and> canvasEl (constrainCropBox s) = canvasEl s \<and>
   parent_listeners (constrainCropBox s) = parent_listeners s \<and>
   window_listeners (constrainCropBox s) = window_listeners s \<and>
   cropBoxEl (constrainCropBox s) = cropBoxEl s"
  by (subst constrain_frame, simp)+

lemma manipulate_fields:
  "startCropRect (manipulate s dx dy) = startCropRect s \<and>
   startPointer (manipulate s dx dy) = startPointer s \<and> activeHandle (manipulate s dx dy) = activeHandle s \<and>
   isManipulating (manipulate s dx dy) = isManipulating s \<and> isDrawing (manipulate s dx dy) = isDrawing s \<and>
   isCropDefined (manipulate s dx dy) = isCropDefined s \<and> canvasEl (manipulate s dx dy) = canvasEl s \<and>
   parent_listeners (manipulate s dx dy) = parent_listeners s \<and>
   window_listeners (manipulate s dx dy) = window_listeners s \<and>
   cropBoxEl (manipulate s dx dy) = cropBoxEl s"
  by (subst manipulate_frame, simp)+

lemma draw_fields:
  "startCropRect (draw s p) = startCropRect s \<and>
   startPointer (draw s p) = startPointer s \<and> activeHandle (draw s p) = activeHandle s \<and>
   isManipulating (draw s p) = isManipulating s \<and> isDrawing (draw s p) = isDrawing s \<and>
   canvasEl (draw s p) = canvasEl s \<and>
   parent_listeners (draw s p) = parent_listeners s \<and>
   window_listeners (draw s p) = window_listeners s"
  by (simp add: draw_def Let_def)

lemma move_fields:
  "startCropRect (onDrawOrManipulateMove s e) = startCropRect s \<and>
   startPointer (onDrawOrManipulateMove s e) = startPointer s \<and>
   activeHandle (onDrawOrManipulateMove s e) = activeHandle s \<and>
   isManipulating (onDrawOrManipulateMove s e) = isManipulating s \<and>
   isDrawing (onDrawOrManipulateMove s e) = isDrawing s \<and>
   canvasEl (onDrawOrManipulateMove s e) = canvasEl s \<and>
   parent_listeners (onDrawOrManipulateMove s e) = parent_listeners s \<and>
   window_listeners (onDrawOrManipulateMove s e) = window_listeners s"
  by (simp add: onDrawOrManipulateMove_def Let_def updateStyle_frame constrain_fields
      manipulate_fields draw_fields)

lemma manipulate_move:
  assumes "activeHandle s = Some ''move''"
  shows "cropRect (manipulate s dx dy) =
     (cropRect s)
       \<lparr>rect_x := max 0 (min (rect_x (startCropRect s) + dx)
                           (real (canvas_width (canvasEl s)) - rect_width (cropRect s))),
        rect_y := max 0 (min (rect_y (startCropRect s) + dy)
                           (real (canvas_height (canvasEl s)) - rect_height (cropRect s)))\<rparr>"
  using assms by (simp add: manipulate_def Let_def)

lemma clamp_code: "lo \<le> hi \<Longrightarrow> max lo (min v hi) = spec_clamp lo hi v"
  by (auto simp: spec_clamp_def max_def min_def)

lemma constrain_fits:
  assumes "0 \<le> rect_x (cropRect s)" "0 \<le> rect_y (cropRect s)"
    "30 \<le> rect_width (cropRect s)" "30 \<le> rect_height (cropRect s)"
    "rect_x (cropRect s) + rect_width (cropRect s) \<le> real (canvas_width (canvasEl s))"
    "rect_y (cropRect s) + rect_height (cropRect s) \<le> real (canvas_height (canvasEl s))"
  shows "cropRect (constrainCropBox s) = cropRect s"
proof (rule rect.equality)
  show "rect_x (cropRect (constrainCropBox s)) = rect_x (cropRect s)"
    using assms by (simp add: constrain_x)
  show "rect_y (cropRect (constrainCropBox s)) = rect_y (cropRect s)"
    using assms by (simp add: constrain_y)
  show "rect_width (cropRect (constrainCropBox s)) = rect_width (cropRect s)"
    using assms by (simp add: constrain_width max_def min_def)
  show "rect_height (cropRect (constrainCropBox s)) = rect_height (cropRect s)"
    using assms by (simp add: constrain_height max_def min_def)
qed simp

lemma move_then_constrain:
  assumes h: "activeHandle s = Some ''move''"
    and w: "30 \<le> rect_width (cropRect s)" "rect_width (cropRect s) \<le> real (canvas_width (canvasEl s))"
    and ht: "30 \<le> rect_height (cropRect s)" "rect_height (cropRect s) \<le> real (canvas_height (canvasEl s))"
  shows "cropRect (constrainCropBox (manipulate s dx dy)) = cropRect (manipulate s dx dy)"
proof (rule constrain_fits)
  note m = manipulate_move [OF h] conjunct1 [OF conjunct2 [OF conjunct2 [OF conjunct2 [OF conjunct2 [OF conjunct2 [OF conjunct2 [OF manipulate_fields]]]]]]]
  show "0 \<le> rect_x (cropRect (manipulate s dx dy))" by (simp add: m)
  show "0 \<le> rect_y (cropRect (manipulate s dx dy))" by (simp add: m)
  show "30 \<le> rect_width (cropRect (manipulate s dx dy))" using w by (simp add: m)
  show "30 \<le> rect_height (cropRect (manipulate s dx dy))" using ht by (simp add: m)
  show "rect_x (cropRect (manipulate s dx dy)) + rect_width (cropRect (manipulate s dx dy))
      \<le> real (canvas_width (canvasEl (manipulate s dx dy)))"
    using w by (simp add: m max_def min_def)
  show "rect_y (cropRect (manipulate s dx dy)) + rect_height (cropRect (manipulate s dx dy))
      \<le> real (canvas_height (canvasEl (manipulate s dx dy)))"
    using ht by (simp add: m max_def min_def)
qed

section \<open>Resize handles\<close>

text \<open>
  Claim C4. In a manipulation with one of the eight compass handles, the delta rules set,
  from the anchor snapshot \<open>startCropRect\<close> and the deltas: for \<open>e\<close> the width to anchor
  width + dx; for \<open>w\<close> the width to anchor width - dx and x to anchor x + dx; for \<open>s\<close> the
  height to anchor height + dy; for \<open>n\<close> the height to anchor height - dy and y to
  anchor y + dy; a corner handle gets both of its rules, and what a handle's letters do
  not name stays as it is. The rules touch nothing but the rectangle. The move handler
  calls them with dx, dy = current pointer minus \<open>startPointer\<close> (both in surface
  pixels), then constrains when a region is defined, and it changes neither the anchor
  snapshot nor the anchor pointer nor the handle: deltas never compound across moves.
\<close>

theorem compass_resize_rules:
  assumes "h \<in> set compass_handles" and "activeHandle s = Some h"
  shows "manipulate s dx dy = s\<lparr>cropRect := cropRect (manipulate s dx dy)\<rparr> \<and>
    (CHR ''e'' \<in> set h \<longrightarrow>
       rect_width (cropRect (manipulate s dx dy)) = rect_width (startCropRect s) + dx) \<and>
    (CHR ''w'' \<in> set h \<longrightarrow>
       rect_width (cropRect (manipulate s dx dy)) = rect_width (startCropRect s) - dx \<and>
       rect_x (cropRect (manipulate s dx dy)) = rect_x (startCropRect s) + dx) \<and>
    (CHR ''s'' \<in> set h \<longrightarrow>
       rect_height (cropRect (manipulate s dx dy)) = rect_height (startCropRect s) + dy) \<and>
    (CHR ''n'' \<in> set h \<longrightarrow>
       rect_height (cropRect (manipulate s dx dy)) = rect_height (startCropRect s) - dy \<and>
       rect_y (cropRect (manipulate s dx dy)) = rect_y (startCropRect s) + dy) \<and>
    (CHR ''w'' \<notin> set h \<longrightarrow> rect_x (cropRect (manipulate s dx dy)) = rect_x (cropRect s)) \<and>
    (CHR ''n'' \<notin> set h \<longrightarrow> rect_y (cropRect (manipulate s dx dy)) = rect_y (cropRect s)) \<and>
    (CHR ''e'' \<notin> set h \<and> CHR ''w'' \<notin> set h \<longrightarrow>
       rect_width (cropRect (manipulate s dx dy)) = rect_width (cropRect s)) \<and>
    (CHR ''s'' \<notin> set h \<and> CHR ''n'' \<notin> set h \<longrightarrow>
       rect_height (cropRect (manipulate s dx dy)) = rect_height (cropRect s)) \<and>
    (isManipulating s \<and> \<not> isDrawing s \<and> 0 < dr_width (canvasRect e) \<longrightarrow>
       onDrawOrManipulateMove s e =
         (let m = manipulate s
                    (point_x (getNativePointerPosition s e) - point_x (startPointer s))
                    (point_y (getNativePointerPosition s e) - point_y (startPointer s))
          in if isCropDefined s then updateStyle (constrainCropBox m) e else m) \<and>
       startCropRect (onDrawOrManipulateMove s e) = startCropRect s \<and>
       startPointer (onDrawOrManipulateMove s e) = startPointer s \<and>
       activeHandle (onDrawOrManipulateMove s e) = Some h \<and>
       isManipulating (onDrawOrManipulateMove s e) \<and> \<not> isDrawing (onDrawOrManipulateMove s e))"
proof -
  have r: "cropRect (manipulate s dx dy) = resize h (startCropRect s) dx dy (cropRect s)"
    using assms by (rule manipulate_compass)
  have cases: "h = ''n'' \<or> h = ''s'' \<or> h = ''e'' \<or> h = ''w'' \<or> h = ''ne'' \<or> h = ''nw'' \<or> h = ''se'' \<or> h = ''sw''"
    using assms(1) by (simp add: compass_handles_def)
  have frame: "manipulate s dx dy = s\<lparr>cropRect := cropRect (manipulate s dx dy)\<rparr>"
    by (rule manipulate_frame)
  have rules: "(CHR ''e'' \<in> set h \<longrightarrow>
       rect_width (cropRect (manipulate s dx dy)) = rect_width (startCropRect s) + dx) \<and>
    (CHR ''w'' \<in> set h \<longrightarrow>
       rect_width (cropRect (manipulate s dx dy)) = rect_width (startCropRect s) - dx \<and>
       rect_x (cropRect (manipulate s dx dy)) = rect_x (startCropRect s) + dx) \<and>
    (CHR ''s'' \<in> set h \<longrightarrow>
       rect_height (cropRect (manipulate s dx dy)) = rect_height (startCropRect s) + dy) \<and>
    (CHR ''n'' \<in> set h \<longrightarrow>
       rect_height (cropRect (manipulate s dx dy)) = rect_height (startCropRect s) - dy \<and>
       rect_y (cropRect (manipulate s dx dy)) = rect_y (startCropRect s) + dy) \<and>
    (CHR ''w'' \<notin> set h \<longrightarrow> rect_x (cropRect (manipulate s dx dy)) = rect_x (cropRect s)) \<and>
    (CHR ''n'' \<notin> set h \<longrightarrow> rect_y (cropRect (manipulate s dx dy)) = rect_y (cropRect s)) \<and>
    (CHR ''e'' \<notin> set h \<and> CHR ''w'' \<notin> set h \<longrightarrow>
       rect_width (cropRect (manipulate s dx dy)) = rect_width (cropRect s)) \<and>
    (CHR ''s'' \<notin> set h \<and> CHR ''n'' \<notin> set h \<longrightarrow>
       rect_height (cropRect (manipulate s dx dy)) = rect_height (cropRect s))"
    unfolding r using cases by (elim disjE) (simp_all add: resize_def)
  have handler: "isManipulating s \<and> \<not> isDrawing s \<and> 0 < dr_width (canvasRect e) \<longrightarrow>
       onDrawOrManipulateMove s e =
         (let m = manipulate s
                    (point_x (getNativePointerPosition s e) - point_x (startPointer s))
                    (point_y (getNativePointerPosition s e) - point_y (startPointer s))
          in if isCropDefined s then updateStyle (constrainCropBox m) e else m) \<and>
       startCropRect (onDrawOrManipulateMove s e) = startCropRect s \<and>
       startPointer (onDrawOrManipulateMove s e) = startPointer s \<and>
       activeHandle (onDrawOrManipulateMove s e) = Some h \<and>
       isManipulating (onDrawOrManipulateMove s e) \<and> \<not> isDrawing (onDrawOrManipulateMove s e)"
  proof (intro impI)
    assume m: "isManipulating s \<and> \<not> isDrawing s \<and> 0 < dr_width (canvasRect e)"
    have "onDrawOrManipulateMove s e =
         (let m = manipulate s
                    (point_x (getNativePointerPosition s e) - point_x (startPointer s))
                    (point_y (getNativePointerPosition s e) - point_y (startPointer s))
          in if isCropDefined s then updateStyle (constrainCropBox m) e else m)"
      using m by (intro move_handler_manipulating) simp_all
    moreover have "startCropRect (onDrawOrManipulateMove s e) = startCropRect s \<and>
       startPointer (onDrawOrManipulateMove s e) = startPointer s \<and>
       activeHandle (onDrawOrManipulateMove s e) = Some h \<and>
       isManipulating (onDrawOrManipulateMove s e) \<and> \<not> isDrawing (onDrawOrManipulateMove s e)"
      using m assms(2) by (simp add: move_fields)
    ultimately show "onDrawOrManipulateMove s e =
         (let m = manipulate s
                    (point_x (getNativePointerPosition s e) - point_x (startPointer s))
                    (point_y (getNativePointerPosition s e) - point_y (startPointer s))
          in if isCropDefined s then updateStyle (constrainCropBox m) e else m) \<and>
       startCropRect (onDrawOrManipulateMove s e) = startCropRect s \<and>
       startPointer (onDrawOrManipulateMove s e) = startPointer s \<and>
       activeHandle (onDrawOrManipulateMove s e) = Some h \<and>
       isManipulating (onDrawOrManipulateMove s e) \<and> \<not> isDrawing (onDrawOrManipulateMove s e)"
      by (rule conjI)
  qed
  from frame rules handler show ?thesis by blast
qed

theorem compass_resize_rules_witness:
  "''nw'' \<in> set compass_handles \<and>
   cropRect (manipulate
      (manipulating_manager (blank_canvas 200 200 :: nat canvas) ''nw''
         \<lparr>rect_x = 10, rect_y = 10, rect_width = 50, rect_height = 50\<rparr> \<lparr>point_x = 10, point_y = 10\<rparr>)
      (-10) (-10))
     = \<lparr>rect_x = 0, rect_y = 0, rect_width = 60, rect_height = 60\<rparr> \<and>
   cropRect (onDrawOrManipulateMove
      (manipulating_manager (blank_canvas 200 200 :: nat canvas) ''nw''
         \<lparr>rect_x = 10, rect_y = 10, rect_width = 50, rect_height = 50\<rparr> \<lparr>point_x = 10, point_y = 10\<rparr>)
      (at_origin_event 0 0 (CropHandle (Some ''nw'')) 200 200))
     = \<lparr>rect_x = 0, rect_y = 0, rect_width = 60, rect_height = 60\<rparr>"
proof -
  let ?s = "manipulating_manager (blank_canvas 200 200 :: nat canvas) ''nw''
         \<lparr>rect_x = 10, rect_y = 10, rect_width = 50, rect_height = 50\<rparr> \<lparr>point_x = 10, point_y = 10\<rparr>"
  let ?e = "at_origin_event 0 0 (CropHandle (Some ''nw'')) 200 200"
  have h: "''nw'' \<in> set compass_handles" by (simp add: compass_handles_def)
  have f: "activeHandle ?s = Some ''nw''"
    "cropRect ?s = \<lparr>rect_x = 10, rect_y = 10, rect_width = 50, rect_height = 50\<rparr>"
    "startCropRect ?s = \<lparr>rect_x = 10, rect_y = 10, rect_width = 50, rect_height = 50\<rparr>"
    "startPointer ?s = \<lparr>point_x = 10, point_y = 10\<rparr>"
    "canvas_width (canvasEl ?s) = 200" "canvas_height (canvasEl ?s) = 200"
    "isManipulating ?s" "\<not> isDrawing ?s" "isCropDefined ?s"
    by (simp_all add: manipulating_manager_def fresh_manager_def new_CropManager_def blank_canvas_def)
  have p: "getNativePointerPosition ?s ?e = \<lparr>point_x = 0, point_y = 0\<rparr>"
    by (simp add: getNativePointerPosition_def at_origin_event_def f Let_def)
  note r = compass_resize_rules [OF h f(1), of "-10" "-10" ?e]
  from r have "rect_width (cropRect (manipulate ?s (-10) (-10))) = 60"
    and "rect_x (cropRect (manipulate ?s (-10) (-10))) = 0"
    and "rect_height (cropRect (manipulate ?s (-10) (-10))) = 60"
    and "rect_y (cropRect (manipulate ?s (-10) (-10))) = 0"
    by (simp_all add: f)
  then have 1: "cropRect (manipulate ?s (-10) (-10)) =
      \<lparr>rect_x = 0, rect_y = 0, rect_width = 60, rect_height = 60\<rparr>"
    by (cases "cropRect (manipulate ?s (-10) (-10))") simp
  from r have "isManipulating ?s \<and> \<not> isDrawing ?s \<and> 0 < dr_width (canvasRect ?e) \<longrightarrow>
       onDrawOrManipulateMove ?s ?e =
         (let m = manipulate ?s
                    (point_x (getNativePointerPosition ?s ?e) - point_x (startPointer ?s))
                    (point_y (getNativePointerPosition ?s ?e) - point_y (startPointer ?s))
          in if isCropDefined ?s then updateStyle (constrainCropBox m) ?e else m)"
    by blast
  moreover have "0 < dr_width (canvasRect ?e)" by (simp add: at_origin_event_def)
  ultimately have "cropRect (onDrawOrManipulateMove ?s ?e) =
      cropRect (constrainCropBox (manipulate ?s (-10) (-10)))"
    by (simp add: f p Let_def updateStyle_frame)
  also have "\<dots> = \<lparr>rect_x = 0, rect_y = 0, rect_width = 60, rect_height = 60\<rparr>"
    unfolding constrain_rect by (simp add: 1 Let_def manipulate_fields f)
  finally have 2: "cropRect (onDrawOrManipulateMove ?s ?e) =
      \<lparr>rect_x = 0, rect_y = 0, rect_width = 60, rect_height = 60\<rparr>" .
  from h 1 2 show ?thesis by simp
qed

section \<open>The move handle\<close>

text \<open>
  Claim C5. With the \<^verbatim>\<open>move\<close> handle and a region no larger than the canvas, the delta
  rule sets the origin to anchor origin + delta, each axis clamped on its own to the
  interval from 0 to canvas size - region size, and changes nothing else; the constraint
  pass keeps that origin, and keeps the whole rectangle when both sizes are at least 30.
  The move handler applies the rule with delta = current pointer - \<open>startPointer\<close>.
  The witness is the specification's example: anchor region (10, 10, 50, 50) on a
  200 x 200 canvas with dx = 300 gives (150, 10, 50, 50); through the handler the same
  region results from a pointer far to the right, whose position is clamped to the canvas.
\<close>

theorem move_rule:
  assumes h: "activeHandle s = Some ''move''"
    and w: "rect_width (cropRect s) \<le> real (canvas_width (canvasEl s))"
    and ht: "rect_height (cropRect s) \<le> real (canvas_height (canvasEl s))"
  shows "manipulate s dx dy =
      s\<lparr>cropRect := (cropRect s)
         \<lparr>rect_x := spec_clamp 0 (real (canvas_width (canvasEl s)) - rect_width (cropRect s))
                      (rect_x (startCropRect s) + dx),
          rect_y := spec_clamp 0 (real (canvas_height (canvasEl s)) - rect_height (cropRect s))
                      (rect_y (startCropRect s) + dy)\<rparr>\<rparr> \<and>
    rect_x (cropRect (constrainCropBox (manipulate s dx dy))) =
      spec_clamp 0 (real (canvas_width (canvasEl s)) - rect_width (cropRect s)) (rect_x (startCropRect s) + dx) \<and>
    rect_y (cropRect (constrainCropBox (manipulate s dx dy))) =
      spec_clamp 0 (real (canvas_height (canvasEl s)) - rect_height (cropRect s)) (rect_y (startCropRect s) + dy) \<and>
    (30 \<le> rect_width (cropRect s) \<and> 30 \<le> rect_height (cropRect s) \<longrightarrow>
       cropRect (constrainCropBox (manipulate s dx dy)) = cropRect (manipulate s dx dy)) \<and>
    (isManipulating s \<and> \<not> isDrawing s \<and> isCropDefined s \<and> 0 < dr_width (canvasRect e) \<longrightarrow>
       cropRect (onDrawOrManipulateMove s e) =
         cropRect (constrainCropBox (manipulate s
           (point_x (getNativePointerPosition s e) - point_x (startPointer s))
           (point_y (getNativePointerPosition s e) - point_y (startPointer s)))))"
proof -
  have r: "cropRect (manipulate s dx dy) = (cropRect s)
         \<lparr>rect_x := spec_clamp 0 (real (canvas_width (canvasEl s)) - rect_width (cropRect s))
                      (rect_x (startCropRect s) + dx),
          rect_y := spec_clamp 0 (real (canvas_height (canvasEl s)) - rect_height (cropRect s))
                      (rect_y (startCropRect s) + dy)\<rparr>"
    using w ht by (simp add: manipulate_move [OF h] clamp_code)
  have a: "manipulate s dx dy =
      s\<lparr>cropRect := (cropRect s)
         \<lparr>rect_x := spec_clamp 0 (real (canvas_width (canvasEl s)) - rect_width (cropRect s))
                      (rect_x (startCropRect s) + dx),
          rect_y := spec_clamp 0 (real (canvas_height (canvasEl s)) - rect_height (cropRect s))
                      (rect_y (startCropRect s) + dy)\<rparr>\<rparr>"
    using manipulate_frame [of s dx dy] by (simp add: r)
  have nx: "0 \<le> spec_clamp 0 (real (canvas_width (canvasEl s)) - rect_width (cropRect s)) v" for v
    using w by (simp add: spec_clamp_def)
  have ny: "0 \<le> spec_clamp 0 (real (canvas_height (canvasEl s)) - rect_height (cropRect s)) v" for v
    using ht by (simp add: spec_clamp_def)
  have b: "rect_x (cropRect (constrainCropBox (manipulate s dx dy))) =
      spec_clamp 0 (real (canvas_width (canvasEl s)) - rect_width (cropRect s)) (rect_x (startCropRect s) + dx)"
    using nx by (simp add: constrain_x r)
  have c: "rect_y (cropRect (constrainCropBox (manipulate s dx dy))) =
      spec_clamp 0 (real (canvas_height (canvasEl s)) - rect_height (cropRect s)) (rect_y (startCropRect s) + dy)"
    using ny by (simp add: constrain_y r)
  have d: "30 \<le> rect_width (cropRect s) \<and> 30 \<le> rect_height (cropRect s) \<longrightarrow>
       cropRect (constrainCropBox (manipulate s dx dy)) = cropRect (manipulate s dx dy)"
    using move_then_constrain [OF h _ w _ ht] by blast
  have e: "isManipulating s \<and> \<not> isDrawing s \<and> isCropDefined s \<and> 0 < dr_width (canvasRect e) \<longrightarrow>
       cropRect (onDrawOrManipulateMove s e) =
         cropRect (constrainCropBox (manipulate s
           (point_x (getNativePointerPosition s e) - point_x (startPointer s))
           (point_y (getNativePointerPosition s e) - point_y (startPointer s))))"
    by (simp add: move_handler_manipulating Let_def updateStyle_frame)
  from a b c d e show ?thesis by blast
qed

theorem move_rule_witness:
  "cropRect (constrainCropBox (manipulate
      (manipulating_manager (blank_canvas 200 200 :: nat canvas) ''move''
         \<lparr>rect_x = 10, rect_y = 10, rect_width = 50, rect_height = 50\<rparr> \<lparr>point_x = 30, point_y = 30\<rparr>)
      300 0))
     = \<lparr>rect_x = 150, rect_y = 10, rect_width = 50, rect_height = 50\<rparr> \<and>
   cropRect (onDrawOrManipulateMove
      (manipulating_manager (blank_canvas 200 200 :: nat canvas) ''move''
         \<lparr>rect_x = 10, rect_y = 10, rect_width = 50, rect_height = 50\<rparr> \<lparr>point_x = 30, point_y = 30\<rparr>)
      (at_origin_event 500 30 CropBody 200 200))
     = \<lparr>rect_x = 150, rect_y = 10, rect_width = 50, rect_height = 50\<rparr>"
proof -
  let ?s = "manipulating_manager (blank_canvas 200 200 :: nat canvas) ''move''
         \<lparr>rect_x = 10, rect_y = 10, rect_width = 50, rect_height = 50\<rparr> \<lparr>point_x = 30, point_y = 30\<rparr>"
  let ?e = "at_origin_event 500 30 CropBody 200 200"
  have f: "activeHandle ?s = Some ''move''"
    "cropRect ?s = \<lparr>rect_x = 10, rect_y = 10, rect_width = 50, rect_height = 50\<rparr>"
    "startCropRect ?s = \<lparr>rect_x = 10, rect_y = 10, rect_width = 50, rect_height = 50\<rparr>"
    "startPointer ?s = \<lparr>point_x = 30, point_y = 30\<rparr>"
    "canvas_width (canvasEl ?s) = 200" "canvas_height (canvasEl ?s) = 200"
    "isManipulating ?s" "\<not> isDrawing ?s" "isCropDefined ?s"
    by (simp_all add: manipulating_manager_def fresh_manager_def new_CropManager_def blank_canvas_def)
  have p: "getNativePointerPosition ?s ?e = \<lparr>point_x = 200, point_y = 30\<rparr>"
    by (simp add: getNativePointerPosition_def at_origin_event_def f Let_def)
  have w: "rect_width (cropRect ?s) \<le> real (canvas_width (canvasEl ?s))"
    and ht: "rect_height (cropRect ?s) \<le> real (canvas_height (canvasEl ?s))"
    by (simp_all add: f)
  note r = move_rule [OF f(1) w ht]
  have m: "cropRect (manipulate ?s dx 0) =
      \<lparr>rect_x = spec_clamp 0 150 (10 + dx), rect_y = 10, rect_width = 50, rect_height = 50\<rparr>" for dx
    using arg_cong [OF conjunct1 [OF r [of dx 0 ?e]], of cropRect] by (simp add: f spec_clamp_def)
  have k: "cropRect (constrainCropBox (manipulate ?s dx 0)) = cropRect (manipulate ?s dx 0)" for dx
  proof -
    from r [of dx 0 ?e]
    have "30 \<le> rect_width (cropRect ?s) \<and> 30 \<le> rect_height (cropRect ?s) \<longrightarrow>
       cropRect (constrainCropBox (manipulate ?s dx 0)) = cropRect (manipulate ?s dx 0)"
      by blast
    then show ?thesis by (simp add: f)
  qed
  have 1: "cropRect (constrainCropBox (manipulate ?s 300 0)) =
       \<lparr>rect_x = 150, rect_y = 10, rect_width = 50, rect_height = 50\<rparr>"
    by (simp add: k m spec_clamp_def)
  from r [of 0 0 ?e]
  have "isManipulating ?s \<and> \<not> isDrawing ?s \<and> isCropDefined ?s \<and> 0 < dr_width (canvasRect ?e) \<longrightarrow>
       cropRect (onDrawOrManipulateMove ?s ?e) =
         cropRect (constrainCropBox (manipulate ?s
           (point_x (getNativePointerPosition ?s ?e) - point_x (startPointer ?s))
           (point_y (getNativePointerPosition ?s ?e) - point_y (startPointer ?s))))"
    by blast
  moreover have "0 < dr_width (canvasRect ?e)" by (simp add: at_origin_event_def)
  ultimately have "cropRect (onDrawOrManipulateMove ?s ?e) = cropRect (constrainCropBox (manipulate ?s 170 0))"
    by (simp add: f p)
  then have 2: "cropRect (onDrawOrManipulateMove ?s ?e) =
       \<lparr>rect_x = 150, rect_y = 10, rect_width = 50, rect_height = 50\<rparr>"
    by (simp add: k m spec_clamp_def)
  from 1 2 show ?thesis by simp
qed

lemma move_changes_region_and_style:
  assumes "\<not> isDrawing s"
  shows "onDrawOrManipulateMove s e =
     s\<lparr>cropRect := cropRect (onDrawOrManipulateMove s e),
       cropBoxEl := cropBoxEl (onDrawOrManipulateMove s e)\<rparr>"
proof -
  have "isCropDefined (onDrawOrManipulateMove s e) = isCropDefined s"
    using assms
    by (simp add: onDrawOrManipulateMove_def Let_def updateStyle_frame constrain_fields manipulate_fields)
  then show ?thesis
    by (intro crop_manager.equality) (simp_all add: move_fields)
qed
lemma blank_canvas_size:
  "canvas_width (blank_canvas w h) = w \<and> canvas_height (blank_canvas w h) = h"
  by (simp add: blank_canvas_def)
lemma manipulate_start_fields:
  "cropRect (onManipulateStart s e) = cropRect s \<and>
   startCropRect (onManipulateStart s e) = cropRect s \<and>
   startPointer (onManipulateStart s e) = getNativePointerPosition s e \<and>
   activeHandle (onManipulateStart s e) = handle_of (target e) \<and>
   isManipulating (onManipulateStart s e) \<and>
   isDrawing (onManipulateStart s e) = isDrawing s \<and>
   isCropDefined (onManipulateStart s e) = isCropDefined s \<and>
   canvasEl (onManipulateStart s e) = canvasEl s \<and>
   cropBoxEl (onManipulateStart s e) = cropBoxEl s \<and>
   parent_listeners (onManipulateStart s e) = parent_listeners s \<and>
   window_listeners (onManipulateStart s e) = add_gesture_listeners (window_listeners s)"
  by (simp add: onManipulateStart_def Let_def getNativePointerPosition_def)

text \<open>One pointer move of a \<^verbatim>\<open>move\<close> manipulation on a region that fits.\<close>

lemma move_step_keeps_size:
  assumes m: "isManipulating t" "\<not> isDrawing t" and h: "activeHandle t = Some ''move''"
    and w: "30 \<le> rect_width (cropRect t)" "rect_width (cropRect t) \<le> real (canvas_width (canvasEl t))"
    and ht: "30 \<le> rect_height (cropRect t)" "rect_height (cropRect t) \<le> real (canvas_height (canvasEl t))"
  shows "rect_width (cropRect (onDrawOrManipulateMove t e)) = rect_width (cropRect t) \<and>
         rect_height (cropRect (onDrawOrManipulateMove t e)) = rect_height (cropRect t)"
proof -
  let ?dx = "point_x (getNativePointerPosition t e) - point_x (startPointer t)"
  let ?dy = "point_y (getNativePointerPosition t e) - point_y (startPointer t)"
  have "cropRect (onDrawOrManipulateMove t e) = cropRect (manipulate t ?dx ?dy)"
    using move_then_constrain [OF h w ht, of ?dx ?dy]
    by (simp add: move_handler_manipulating [OF m] Let_def updateStyle_frame)
  then show ?thesis by (simp add: manipulate_move [OF h])
qed

section \<open>A move manipulation keeps the size\<close>

text \<open>
  Claim C10. Take a manipulation that starts on the body of the crop box (handle
  \<^verbatim>\<open>move\<close>) while no drawing is in progress, on a region whose width and height are at
  least 30 and at most the canvas's. After any number of pointer moves of that session
  the region has the width and height it had when the session started; and the next
  pointer move, handler and constraint pass together, leaves width and height as they
  were before it and changes nothing of the manager but the region and the style of the
  crop box.
\<close>

theorem move_session_keeps_size:
  assumes d: "\<not> isDrawing s" and h: "handle_of (target e0) = Some ''move''"
    and rendered: "0 < dr_width (canvasRect e0)" "\<forall>m \<in> set ms. 0 < dr_width (canvasRect m)"
      "0 < dr_width (canvasRect e)"
    and w: "30 \<le> rect_width (cropRect s)" "rect_width (cropRect s) \<le> real (canvas_width (canvasEl s))"
    and ht: "30 \<le> rect_height (cropRect s)" "rect_height (cropRect s) \<le> real (canvas_height (canvasEl s))"
  shows "rect_width (cropRect (foldl onDrawOrManipulateMove (onManipulateStart s e0) ms)) = rect_width (cropRect s) \<and>
    rect_height (cropRect (foldl onDrawOrManipulateMove (onManipulateStart s e0) ms)) = rect_height (cropRect s) \<and>
    rect_width (cropRect (onDrawOrManipulateMove (foldl onDrawOrManipulateMove (onManipulateStart s e0) ms) e)) =
      rect_width (cropRect (foldl onDrawOrManipulateMove (onManipulateStart s e0) ms)) \<and>
    rect_height (cropRect (onDrawOrManipulateMove (foldl onDrawOrManipulateMove (onManipulateStart s e0) ms) e)) =
      rect_height (cropRect (foldl onDrawOrManipulateMove (onManipulateStart s e0) ms)) \<and>
    onDrawOrManipulateMove (foldl onDrawOrManipulateMove (onManipulateStart s e0) ms) e =
      (foldl onDrawOrManipulateMove (onManipulateStart s e0) ms)
        \<lparr>cropRect := cropRect (onDrawOrManipulateMove (foldl onDrawOrManipulateMove (onManipulateStart s e0) ms) e),
         cropBoxEl := cropBoxEl (onDrawOrManipulateMove (foldl onDrawOrManipulateMove (onManipulateStart s e0) ms) e)\<rparr>"
proof -
  let ?run = "\<lambda>ms. foldl onDrawOrManipulateMove (onManipulateStart s e0) ms"
  have inv: "isManipulating (?run ms) \<and> \<not> isDrawing (?run ms) \<and>
      activeHandle (?run ms) = Some ''move'' \<and> canvasEl (?run ms) = canvasEl s \<and>
      rect_width (cropRect (?run ms)) = rect_width (cropRect s) \<and>
      rect_height (cropRect (?run ms)) = rect_height (cropRect s)" for ms
  proof (induction ms rule: rev_induct)
    case Nil
    show ?case using d h by (simp add: manipulate_start_fields)
  next
    case (snoc m ms)
    then have i: "isManipulating (?run ms)" "\<not> isDrawing (?run ms)"
      and a: "activeHandle (?run ms) = Some ''move''"
      and c: "canvasEl (?run ms) = canvasEl s"
      and sz: "rect_width (cropRect (?run ms)) = rect_width (cropRect s)"
        "rect_height (cropRect (?run ms)) = rect_height (cropRect s)"
      by simp_all
    have "rect_width (cropRect (onDrawOrManipulateMove (?run ms) m)) = rect_width (cropRect (?run ms)) \<and>
         rect_height (cropRect (onDrawOrManipulateMove (?run ms) m)) = rect_height (cropRect (?run ms))"
      using w ht by (intro move_step_keeps_size i a) (simp_all add: sz c)
    then show ?case using i a c sz by (simp add: move_fields)
  qed
  have step: "rect_width (cropRect (onDrawOrManipulateMove (?run ms) e)) = rect_width (cropRect (?run ms)) \<and>
         rect_height (cropRect (onDrawOrManipulateMove (?run ms) e)) = rect_height (cropRect (?run ms))"
    using w ht inv [of ms] by (intro move_step_keeps_size) simp_all
  have frame: "onDrawOrManipulateMove (?run ms) e =
      (?run ms)\<lparr>cropRect := cropRect (onDrawOrManipulateMove (?run ms) e),
                cropBoxEl := cropBoxEl (onDrawOrManipulateMove (?run ms) e)\<rparr>"
    using inv [of ms] by (intro move_changes_region_and_style) simp
  from inv [of ms] step frame show ?thesis by simp
qed

theorem move_session_keeps_size_witness:
  "cropRect (foldl onDrawOrManipulateMove
      (onManipulateStart
         ((fresh_manager (blank_canvas 200 200 :: nat canvas))
            \<lparr>cropRect := \<lparr>rect_x = 10, rect_y = 10, rect_width = 50, rect_height = 50\<rparr>,
             isCropDefined := True\<rparr>)
         (at_origin_event 30 30 CropBody 200 200))
      [at_origin_event 500 30 CropBody 200 200])
     = \<lparr>rect_x = 150, rect_y = 10, rect_width = 50, rect_height = 50\<rparr>"
proof -
  let ?s = "(fresh_manager (blank_canvas 200 200 :: nat canvas))
            \<lparr>cropRect := \<lparr>rect_x = 10, rect_y = 10, rect_width = 50, rect_height = 50\<rparr>,
             isCropDefined := True\<rparr>"
  let ?d = "at_origin_event 30 30 CropBody 200 200"
  let ?e = "at_origin_event 500 30 CropBody 200 200"
  have f: "\<not> isDrawing ?s" "handle_of (target ?d) = Some ''move''"
    "cropRect ?s = \<lparr>rect_x = 10, rect_y = 10, rect_width = 50, rect_height = 50\<rparr>"
    "canvas_width (canvasEl ?s) = 200" "canvas_height (canvasEl ?s) = 200"
    by (simp_all add: fresh_manager_def new_CropManager_def blank_canvas_def at_origin_event_def)
  have sz: "30 \<le> rect_width (cropRect ?s)" "rect_width (cropRect ?s) \<le> real (canvas_width (canvasEl ?s))"
    "30 \<le> rect_height (cropRect ?s)" "rect_height (cropRect ?s) \<le> real (canvas_height (canvasEl ?s))"
    by (simp_all add: fresh_manager_def new_CropManager_def blank_canvas_def)
  have rendered: "0 < dr_width (canvasRect ?d)" "\<forall>m \<in> set [?e]. 0 < dr_width (canvasRect m)"
    "0 < dr_width (canvasRect ?e)"
    by (simp_all add: at_origin_event_def)
  from move_session_keeps_size [OF f(1) f(2) rendered sz]
  have wh: "rect_width (cropRect (foldl onDrawOrManipulateMove (onManipulateStart ?s ?d) [?e])) = 50"
    "rect_height (cropRect (foldl onDrawOrManipulateMove (onManipulateStart ?s ?d) [?e])) = 50"
    by (simp_all add: f)
  let ?t = "onManipulateStart ?s ?d"
  have t: "isManipulating ?t" "\<not> isDrawing ?t" "isCropDefined ?t" "activeHandle ?t = Some ''move''"
    "startCropRect ?t = \<lparr>rect_x = 10, rect_y = 10, rect_width = 50, rect_height = 50\<rparr>"
    "cropRect ?t = \<lparr>rect_x = 10, rect_y = 10, rect_width = 50, rect_height = 50\<rparr>"
    "canvasEl ?t = blank_canvas 200 200"
    by (simp_all add: manipulate_start_fields f fresh_manager_def new_CropManager_def)
  have sp: "startPointer ?t = \<lparr>point_x = 30, point_y = 30\<rparr>"
    by (simp add: manipulate_start_fields getNativePointerPosition_def at_origin_event_def
        fresh_manager_def new_CropManager_def blank_canvas_def Let_def)
  have p: "getNativePointerPosition ?t ?e = \<lparr>point_x = 200, point_y = 30\<rparr>"
    unfolding getNativePointerPosition_def Let_def t
    by (simp add: at_origin_event_def blank_canvas_size)
  have "cropRect (onDrawOrManipulateMove ?t ?e) = cropRect (constrainCropBox (manipulate ?t 170 0))"
    by (simp add: move_handler_manipulating [OF t(1) t(2)] Let_def updateStyle_frame t(3) sp p)
  then have xy: "rect_x (cropRect (onDrawOrManipulateMove ?t ?e)) = 150"
    "rect_y (cropRect (onDrawOrManipulateMove ?t ?e)) = 10"
    by (simp_all add: constrain_x constrain_y manipulate_move [OF t(4)] t(5,6,7) blank_canvas_size)
  from wh xy show ?thesis
    by (cases "cropRect (foldl onDrawOrManipulateMove (onManipulateStart ?s ?d) [?e])") simp
qed

section \<open>Handle identities outside the compass set\<close>





section \<open>The pointer state machine\<close>

lemma gesture_listeners_ops:
  "add_gesture_listeners [] = gesture_listeners"
  "add_gesture_listeners gesture_listeners = gesture_listeners"
  "remove_gesture_listeners [] = []"
  "remove_gesture_listeners gesture_listeners = []"
  by (simp_all add: add_gesture_listeners_def remove_gesture_listeners_def gesture_listeners_def
      addEventListener_def removeEventListener_def)

lemma clear_fields:
  "cropRect (clear s) = cropRect s \<and> startCropRect (clear s) = startCropRect s \<and>
   startPointer (clear s) = startPointer s \<and> activeHandle (clear s) = None \<and>
   \<not> isManipulating (clear s) \<and> \<not> isDrawing (clear s) \<and> \<not> isCropDefined (clear s) \<and>
   canvasEl (clear s) = canvasEl s \<and>
   parent_listeners (clear s) = parent_listeners s \<and>
   window_listeners (clear s) = window_listeners s \<and>
   hidden (cropBoxEl (clear s)) \<and>
   box_listeners (cropBoxEl (clear s)) =
     removeEventListener (box_listeners (cropBoxEl s)) pointerdown OnManipulateStart"
  by (simp add: clear_def)

lemma clear_box_listeners:
  assumes "box_listeners (cropBoxEl s) = [] \<or> box_listeners (cropBoxEl s) = [(pointerdown, OnManipulateStart)]"
  shows "box_listeners (cropBoxEl (clear s)) = []"
  using assms by (auto simp: clear_fields removeEventListener_def)

lemma draw_start_fields:
  assumes "\<not> in_crop_box (target e)"
  shows "isDrawing (onDrawStart s e) \<and> \<not> isManipulating (onDrawStart s e) \<and>
   \<not> isCropDefined (onDrawStart s e) \<and> activeHandle (onDrawStart s e) = None \<and>
   startPointer (onDrawStart s e) = getNativePointerPosition s e \<and>
   cropRect (onDrawStart s e) =
     \<lparr>rect_x = point_x (getNativePointerPosition s e), rect_y = point_y (getNativePointerPosition s e),
      rect_width = 0, rect_height = 0\<rparr> \<and>
   canvasEl (onDrawStart s e) = canvasEl s \<and>
   cropBoxEl (onDrawStart s e) = cropBoxEl (clear s) \<and>
   parent_listeners (onDrawStart s e) = parent_listeners s \<and>
   window_listeners (onDrawStart s e) = add_gesture_listeners (window_listeners s)"
  using assms by (simp add: onDrawStart_def Let_def clear_def getNativePointerPosition_def)

lemma end_fields:
  "\<not> isDrawing (onDrawOrManipulateEnd s e) \<and> \<not> isManipulating (onDrawOrManipulateEnd s e) \<and>
   activeHandle (onDrawOrManipulateEnd s e) = None \<and>
   isCropDefined (onDrawOrManipulateEnd s e) = isCropDefined s \<and>
   cropRect (onDrawOrManipulateEnd s e) = cropRect s \<and>
   canvasEl (onDrawOrManipulateEnd s e) = canvasEl s \<and>
   parent_listeners (onDrawOrManipulateEnd s e) = parent_listeners s \<and>
   window_listeners (onDrawOrManipulateEnd s e) = remove_gesture_listeners (window_listeners s) \<and>
   cropBoxEl (onDrawOrManipulateEnd s e) =
     (if isDrawing s \<and> \<not> isCropDefined s then cropBoxEl (clear s) else cropBoxEl s)"
  by (simp add: onDrawOrManipulateEnd_def Let_def clear_def)

lemma draw_box_listeners:
  assumes "box_listeners (cropBoxEl s) = [] \<or> box_listeners (cropBoxEl s) = [(pointerdown, OnManipulateStart)]"
  shows "box_listeners (cropBoxEl (draw s p)) = [] \<or>
         box_listeners (cropBoxEl (draw s p)) = [(pointerdown, OnManipulateStart)]"
  using assms by (auto simp: draw_def Let_def addEventListener_def)

lemma move_box_listeners:
  assumes "box_listeners (cropBoxEl s) = [] \<or> box_listeners (cropBoxEl s) = [(pointerdown, OnManipulateStart)]"
  shows "box_listeners (cropBoxEl (onDrawOrManipulateMove s e)) = [] \<or>
         box_listeners (cropBoxEl (onDrawOrManipulateMove s e)) = [(pointerdown, OnManipulateStart)]"
  using assms draw_box_listeners [OF assms]
  by (simp add: onDrawOrManipulateMove_def Let_def updateStyle_frame constrain_fields manipulate_fields)

lemma session_ok_clear: "session_ok s \<Longrightarrow> session_ok (clear s)"
  using clear_box_listeners [of s] by (simp add: session_ok_def idle_def clear_fields)

lemma activate_fields:
  "idle (activate s) \<and> window_listeners (activate s) = window_listeners s \<and>
   cropBoxEl (activate s) = cropBoxEl (clear s) \<and>
   parent_listeners (activate s) = addEventListener (parent_listeners s) pointerdown OnDrawStart"
  by (simp add: activate_def Let_def clear_def idle_def)

lemma deactivate_fields:
  "idle (deactivate s) \<and>
   window_listeners (deactivate s) = remove_gesture_listeners (window_listeners s) \<and>
   cropBoxEl (deactivate s) = cropBoxEl (clear s) \<and>
   parent_listeners (deactivate s) = removeEventListener (parent_listeners s) pointerdown OnDrawStart"
  by (simp add: deactivate_def Let_def clear_def idle_def remove_gesture_listeners_def)

lemma session_ok_activate:
  assumes "session_ok s"
  shows "session_ok (activate s)"
proof -
  from assms have w: "window_listeners s = [] \<or> window_listeners s = gesture_listeners"
    and b: "box_listeners (cropBoxEl s) = [] \<or> box_listeners (cropBoxEl s) = [(pointerdown, OnManipulateStart)]"
    and p: "parent_listeners s = [] \<or> parent_listeners s = [(pointerdown, OnDrawStart)]"
    by (simp_all add: session_ok_def)
  from p have p': "addEventListener (parent_listeners s) pointerdown OnDrawStart = [(pointerdown, OnDrawStart)]"
    by (auto simp: addEventListener_def)
  from w p' clear_box_listeners [OF b] show ?thesis
    by (simp add: session_ok_def activate_fields)
qed

lemma session_ok_deactivate:
  assumes "session_ok s"
  shows "session_ok (deactivate s)"
proof -
  from assms have w: "window_listeners s = [] \<or> window_listeners s = gesture_listeners"
    and b: "box_listeners (cropBoxEl s) = [] \<or> box_listeners (cropBoxEl s) = [(pointerdown, OnManipulateStart)]"
    and p: "parent_listeners s = [] \<or> parent_listeners s = [(pointerdown, OnDrawStart)]"
    by (simp_all add: session_ok_def)
  from p have p': "removeEventListener (parent_listeners s) pointerdown OnDrawStart = []"
    by (auto simp: removeEventListener_def)
  from w have w': "remove_gesture_listeners (window_listeners s) = []"
    by (auto simp: gesture_listeners_ops)
  from w' p' clear_box_listeners [OF b] show ?thesis
    by (simp add: session_ok_def deactivate_fields)
qed

lemma session_ok_applyCrop: "session_ok s \<Longrightarrow> session_ok (applyCropToCanvas s)"
  by (simp add: applyCropToCanvas_def Let_def session_ok_def idle_def)

lemma session_ok_drawStart: "session_ok s \<Longrightarrow> session_ok (onDrawStart s e)"
proof (cases "in_crop_box (target e)")
  case True
  then show "session_ok s \<Longrightarrow> session_ok (onDrawStart s e)" by (simp add: onDrawStart_def)
next
  case False
  assume ok: "session_ok s"
  then have b: "box_listeners (cropBoxEl (clear s)) = []"
    by (intro clear_box_listeners) (simp add: session_ok_def)
  from ok have "window_listeners s = [] \<or> window_listeners s = gesture_listeners"
    and "parent_listeners s = [] \<or> parent_listeners s = [(pointerdown, OnDrawStart)]"
    by (simp_all add: session_ok_def)
  then show "session_ok (onDrawStart s e)"
    using b by (auto simp: session_ok_def idle_def draw_start_fields [OF False] gesture_listeners_ops)
qed

lemma session_ok_manipulateStart: "session_ok s \<Longrightarrow> session_ok (onManipulateStart s e)"
  by (auto simp: session_ok_def idle_def manipulate_start_fields gesture_listeners_ops)

lemma session_ok_move: "session_ok s \<Longrightarrow> session_ok (onDrawOrManipulateMove s e)"
  using move_box_listeners [of s e] by (simp add: session_ok_def idle_def move_fields)

lemma end_box_listeners:
  assumes "box_listeners (cropBoxEl s) = [] \<or> box_listeners (cropBoxEl s) = [(pointerdown, OnManipulateStart)]"
  shows "box_listeners (cropBoxEl (onDrawOrManipulateEnd s e)) = [] \<or>
         box_listeners (cropBoxEl (onDrawOrManipulateEnd s e)) = [(pointerdown, OnManipulateStart)]"
  using assms clear_box_listeners [OF assms] by (simp add: end_fields)

lemma end_idle:
  assumes "session_ok s"
  shows "session_ok (onDrawOrManipulateEnd s e) \<and> idle (onDrawOrManipulateEnd s e) \<and>
         window_listeners (onDrawOrManipulateEnd s e) = []"
proof -
  from assms have w: "window_listeners s = [] \<or> window_listeners s = gesture_listeners"
    and b: "box_listeners (cropBoxEl s) = [] \<or> box_listeners (cropBoxEl s) = [(pointerdown, OnManipulateStart)]"
    and p: "parent_listeners s = [] \<or> parent_listeners s = [(pointerdown, OnDrawStart)]"
    by (simp_all add: session_ok_def)
  from w have w': "window_listeners (onDrawOrManipulateEnd s e) = []"
    by (auto simp: end_fields gesture_listeners_ops)
  have i: "idle (onDrawOrManipulateEnd s e)" by (simp add: idle_def end_fields)
  from w' i p end_box_listeners [OF b, of e] show ?thesis
    by (simp add: session_ok_def end_fields)
qed

text \<open>Which handler a pointer event reaches, in a state of \<open>session_ok\<close>.\<close>

lemma dispatch_pointerdown:
  assumes "session_ok s"
  shows "dispatch pointerdown e s =
     (if in_crop_box (target e)
      then (if box_listeners (cropBoxEl s) = [] then s else onManipulateStart s e)
      else if target e = Container \<and> parent_listeners s \<noteq> [] then onDrawStart s e
      else s)"
proof -
  from assms have w: "window_listeners s = [] \<or> window_listeners s = gesture_listeners"
    and b: "box_listeners (cropBoxEl s) = [] \<or> box_listeners (cropBoxEl s) = [(pointerdown, OnManipulateStart)]"
    and p: "parent_listeners s = [] \<or> parent_listeners s = [(pointerdown, OnDrawStart)]"
    by (simp_all add: session_ok_def)
  have hw: "handlers_for (window_listeners s) pointerdown = []"
    using w by (auto simp: handlers_for_def gesture_listeners_def)
  have early: "in_crop_box (target e) \<Longrightarrow> onDrawStart s e = s"
    by (simp add: onDrawStart_def)
  show ?thesis
  proof (cases "in_crop_box (target e)")
    case True
    then have ne: "target e \<noteq> Elsewhere" by auto
    from b show ?thesis
    proof
      assume "box_listeners (cropBoxEl s) = []"
      then show ?thesis using True ne p hw early
        by (auto simp: dispatch_def Let_def handlers_for_def)
    next
      assume "box_listeners (cropBoxEl s) = [(pointerdown, OnManipulateStart)]"
      then show ?thesis using True
        by (simp add: dispatch_def Let_def handlers_for_def)
    qed
  next
    case False
    then have t: "target e = Container \<or> target e = Elsewhere"
      by (cases "target e") simp_all
    have "window_listeners (onDrawStart s e) = gesture_listeners"
      using w by (auto simp: draw_start_fields [OF False] gesture_listeners_ops)
    then have hw': "handlers_for (window_listeners (onDrawStart s e)) pointerdown = []"
      by (simp add: handlers_for_def gesture_listeners_def)
    from t p show ?thesis using False hw hw'
      by (auto simp: dispatch_def Let_def handlers_for_def)
  qed
qed

lemma dispatch_window:
  assumes "session_ok s" and "t \<noteq> pointerdown"
  shows "dispatch t e s =
     (if window_listeners s = [] then s
      else if t = pointermove then onDrawOrManipulateMove s e else onDrawOrManipulateEnd s e)"
proof -
  from assms have w: "window_listeners s = [] \<or> window_listeners s = gesture_listeners"
    and b: "box_listeners (cropBoxEl s) = [] \<or> box_listeners (cropBoxEl s) = [(pointerdown, OnManipulateStart)]"
    and p: "parent_listeners s = [] \<or> parent_listeners s = [(pointerdown, OnDrawStart)]"
    by (simp_all add: session_ok_def)
  have hb: "handlers_for (box_listeners (cropBoxEl s)) t = []"
    using b assms(2) by (auto simp: handlers_for_def)
  have hp: "handlers_for (parent_listeners s) t = []"
    using p assms(2) by (auto simp: handlers_for_def)
  have d: "dispatch t e s = fst (run_listeners (handlers_for (window_listeners s) t) e s)"
    by (simp add: dispatch_def Let_def hb hp)
  from w show ?thesis
  proof
    assume "window_listeners s = []"
    then show ?thesis by (simp add: d handlers_for_def)
  next
    assume g: "window_listeners s = gesture_listeners"
    then show ?thesis using assms(2) unfolding d
      by (cases t) (simp_all add: handlers_for_def gesture_listeners_def)
  qed
qed

lemma session_ok_dispatch:
  assumes "session_ok s"
  shows "session_ok (dispatch t e s)"
proof (cases "t = pointerdown")
  case True
  then show ?thesis
    using assms session_ok_manipulateStart [OF assms, of e] session_ok_drawStart [OF assms, of e]
    by (simp add: dispatch_pointerdown [OF assms])
next
  case False
  then show ?thesis
    using assms session_ok_move [OF assms, of e] end_idle [OF assms, of e]
    by (simp add: dispatch_window [OF assms False])
qed

lemma session_ok_step: "session_ok s \<Longrightarrow> session_ok (step s ev)"
  by (cases ev)
    (simp_all add: session_ok_dispatch session_ok_activate session_ok_deactivate session_ok_clear
      session_ok_applyCrop)

lemma session_ok_run: "session_ok s \<Longrightarrow> session_ok (run s evs)"
  unfolding run_def by (induction evs rule: rev_induct) (simp_all add: session_ok_step)

lemma session_ok_fresh: "session_ok (fresh_manager cv)"
  by (simp add: session_ok_def idle_def fresh_manager_def new_CropManager_def)

text \<open>
  Claim C8. Start from any state in which the page carries only the class's own
  listeners and the window listeners are registered whenever the mode is not Idle, as
  after construction. After any sequence of pointer events and interface calls, in any
  order, that ends with a \<^verbatim>\<open>pointerup\<close> or \<^verbatim>\<open>pointercancel\<close>, the mode is Idle (not drawing, not
  manipulating, no active handle) and no listener is registered on the window.
\<close>

theorem pointer_end_returns_to_idle:
  assumes "session_ok s" and "t = pointerup \<or> t = pointercancel"
  shows "\<not> isDrawing (run s (evs @ [Pointer t e])) \<and>
         \<not> isManipulating (run s (evs @ [Pointer t e])) \<and>
         activeHandle (run s (evs @ [Pointer t e])) = None \<and>
         window_listeners (run s (evs @ [Pointer t e])) = []"
proof -
  let ?s = "run s evs"
  have ok: "session_ok ?s" using assms(1) by (rule session_ok_run)
  have r: "run s (evs @ [Pointer t e]) = dispatch t e ?s" by (simp add: run_def)
  from assms(2) have nd: "t \<noteq> pointerdown" by auto
  have "idle (dispatch t e ?s) \<and> window_listeners (dispatch t e ?s) = []"
  proof (cases "window_listeners ?s = []")
    case True
    with ok have "idle ?s" by (auto simp: session_ok_def gesture_listeners_def)
    with True show ?thesis by (simp add: dispatch_window [OF ok nd])
  next
    case False
    with assms(2) have "dispatch t e ?s = onDrawOrManipulateEnd ?s e"
      by (auto simp: dispatch_window [OF ok nd])
    then show ?thesis using end_idle [OF ok, of e] by simp
  qed
  then show ?thesis by (simp add: r idle_def)
qed

theorem pointer_end_returns_to_idle_witness:
  "session_ok (fresh_manager (blank_canvas 200 200 :: nat canvas)) \<and>
   idle (run (fresh_manager (blank_canvas 200 200 :: nat canvas))
      [Activate,
       Pointer pointerdown (at_origin_event 10 10 Container 200 200),
       Pointer pointermove (at_origin_event 60 60 Container 200 200),
       Pointer pointercancel (at_origin_event 60 60 Container 200 200)]) \<and>
   window_listeners (run (fresh_manager (blank_canvas 200 200 :: nat canvas))
      [Activate,
       Pointer pointerdown (at_origin_event 10 10 Container 200 200),
       Pointer pointermove (at_origin_event 60 60 Container 200 200),
       Pointer pointercancel (at_origin_event 60 60 Container 200 200)]) = [] \<and>
   idle (run (fresh_manager (blank_canvas 200 200 :: nat canvas))
      [Pointer pointermove (at_origin_event 60 60 Container 200 200),
       Pointer pointerup (at_origin_event 60 60 Container 200 200)]) \<and>
   window_listeners (run (fresh_manager (blank_canvas 200 200 :: nat canvas))
      [Pointer pointermove (at_origin_event 60 60 Container 200 200),
       Pointer pointerup (at_origin_event 60 60 Container 200 200)]) = []"
proof -
  let ?s = "fresh_manager (blank_canvas 200 200 :: nat canvas)"
  have ok: "session_ok ?s" by (rule session_ok_fresh)
  have c: "pointercancel = pointerup \<or> pointercancel = pointercancel" by simp
  have u: "pointerup = pointerup \<or> pointerup = pointercancel" by simp
  note a = pointer_end_returns_to_idle [OF ok c,
      of "[Activate, Pointer pointerdown (at_origin_event 10 10 Container 200 200),
           Pointer pointermove (at_origin_event 60 60 Container 200 200)]"
         "at_origin_event 60 60 Container 200 200"]
  note b = pointer_end_returns_to_idle [OF ok u,
      of "[Pointer pointermove (at_origin_event 60 60 Container 200 200)]"
         "at_origin_event 60 60 Container 200 200"]
  from ok a b show ?thesis by (simp add: idle_def)
qed

section \<open>A tap does not define a region\<close>

lemma native_position_canvas:
  "canvasEl t = canvasEl s \<Longrightarrow> getNativePointerPosition t e = getNativePointerPosition s e"
  by (simp add: getNativePointerPosition_def)

lemma draw_near_anchor:
  assumes "\<not> isCropDefined s"
    and "\<bar>point_x p - point_x (startPointer s)\<bar> \<le> 5"
    and "\<bar>point_y p - point_y (startPointer s)\<bar> \<le> 5"
  shows "draw s p = s"
  using assms by (simp add: draw_def Let_def)

lemma move_near_anchor:
  assumes "isDrawing s" and "\<not> isCropDefined s"
    and "\<bar>point_x (getNativePointerPosition s e) - point_x (startPointer s)\<bar> \<le> 5"
    and "\<bar>point_y (getNativePointerPosition s e) - point_y (startPointer s)\<bar> \<le> 5"
  shows "onDrawOrManipulateMove s e = s"
  using assms draw_near_anchor [OF assms(2,3,4)] by (simp add: onDrawOrManipulateMove_def Let_def)

lemma end_of_undefined_drawing:
  assumes "isDrawing s" and "\<not> isCropDefined s"
  shows "clear (onDrawOrManipulateEnd s e) = onDrawOrManipulateEnd s e"
  using assms by (simp add: onDrawOrManipulateEnd_def clear_def Let_def removeEventListener_def)

text \<open>
  Claim C3. A drawing session starts with a pointer-down outside the crop box, on a
  rendered canvas. If every pointer move of the session is at most 5 surface pixels from
  the anchor on both axes (each on a rendered canvas), then after every prefix of the
  moves no region is defined; the moves in fact leave the state as the pointer-down made
  it; and the handler of pointer-up and pointer-cancel then ends the session in the state
  that \<open>clear\<close> produces (no region, Idle, crop box hidden and without its pointer-down
  listener), which \<open>clear\<close> leaves unchanged, with the gesture listeners removed.
\<close>

theorem tap_defines_no_region:
  assumes out: "\<not> in_crop_box (target d)" and rd: "0 < dr_width (canvasRect d)"
    and near: "\<forall>m \<in> set ms. 0 < dr_width (canvasRect m) \<and>
        \<bar>point_x (getNativePointerPosition s m) - point_x (getNativePointerPosition s d)\<bar> \<le> 5 \<and>
        \<bar>point_y (getNativePointerPosition s m) - point_y (getNativePointerPosition s d)\<bar> \<le> 5"
  shows "(\<forall>k \<le> length ms. \<not> isCropped (foldl onDrawOrManipulateMove (onDrawStart s d) (take k ms))) \<and>
    foldl onDrawOrManipulateMove (onDrawStart s d) ms = onDrawStart s d \<and>
    \<not> isCropped (onDrawOrManipulateEnd (foldl onDrawOrManipulateMove (onDrawStart s d) ms) u) \<and>
    idle (onDrawOrManipulateEnd (foldl onDrawOrManipulateMove (onDrawStart s d) ms) u) \<and>
    hidden (cropBoxEl (onDrawOrManipulateEnd (foldl onDrawOrManipulateMove (onDrawStart s d) ms) u)) \<and>
    (pointerdown, OnManipulateStart) \<notin>
      set (box_listeners (cropBoxEl (onDrawOrManipulateEnd (foldl onDrawOrManipulateMove (onDrawStart s d) ms) u))) \<and>
    clear (onDrawOrManipulateEnd (foldl onDrawOrManipulateMove (onDrawStart s d) ms) u) =
      onDrawOrManipulateEnd (foldl onDrawOrManipulateMove (onDrawStart s d) ms) u \<and>
    window_listeners (onDrawOrManipulateEnd (foldl onDrawOrManipulateMove (onDrawStart s d) ms) u) =
      remove_gesture_listeners (window_listeners (onDrawStart s d))"
proof -
  let ?a = "onDrawStart s d"
  note a = draw_start_fields [OF out, of s]
  have stay: "foldl onDrawOrManipulateMove ?a ns = ?a" if "set ns \<subseteq> set ms" for ns
    using that
  proof (induction ns rule: rev_induct)
    case Nil
    show ?case by simp
  next
    case (snoc n ns)
    then have ih: "foldl onDrawOrManipulateMove ?a ns = ?a" and n: "n \<in> set ms" by simp_all
    have g: "getNativePointerPosition ?a n = getNativePointerPosition s n"
      by (rule native_position_canvas) (simp add: a)
    from near n have
      "\<bar>point_x (getNativePointerPosition s n) - point_x (getNativePointerPosition s d)\<bar> \<le> 5"
      "\<bar>point_y (getNativePointerPosition s n) - point_y (getNativePointerPosition s d)\<bar> \<le> 5"
      by blast+
    then have "onDrawOrManipulateMove ?a n = ?a"
      by (intro move_near_anchor) (simp_all add: a g)
    then show ?case by (simp add: ih)
  qed
  have 1: "\<forall>k \<le> length ms. \<not> isCropped (foldl onDrawOrManipulateMove ?a (take k ms))"
  proof (intro allI impI)
    fix k
    have "set (take k ms) \<subseteq> set ms" by (rule set_take_subset)
    then have "foldl onDrawOrManipulateMove ?a (take k ms) = ?a" by (rule stay)
    then show "\<not> isCropped (foldl onDrawOrManipulateMove ?a (take k ms))"
      by (simp add: isCropped_def a)
  qed
  have 2: "foldl onDrawOrManipulateMove ?a ms = ?a" by (rule stay) simp
  let ?z = "onDrawOrManipulateEnd ?a u"
  have z: "\<not> isCropped ?z" "idle ?z" "hidden (cropBoxEl ?z)"
    "(pointerdown, OnManipulateStart) \<notin> set (box_listeners (cropBoxEl ?z))"
    "window_listeners ?z = remove_gesture_listeners (window_listeners ?a)"
    by (simp_all add: isCropped_def idle_def end_fields a clear_fields removeEventListener_def)
  have fp: "clear ?z = ?z"
    by (rule end_of_undefined_drawing) (simp_all add: a)
  from 1 2 z fp show ?thesis by simp
qed

theorem tap_defines_no_region_witness:
  "\<not> isCropped (onDrawOrManipulateEnd
      (foldl onDrawOrManipulateMove
         (onDrawStart (fresh_manager (blank_canvas 200 200 :: nat canvas))
            (at_origin_event 10 10 Container 200 200))
         [at_origin_event 13 8 Container 200 200, at_origin_event 15 15 Container 200 200])
      (at_origin_event 15 15 Container 200 200)) \<and>
   idle (onDrawOrManipulateEnd
      (foldl onDrawOrManipulateMove
         (onDrawStart (fresh_manager (blank_canvas 200 200 :: nat canvas))
            (at_origin_event 10 10 Container 200 200))
         [at_origin_event 13 8 Container 200 200, at_origin_event 15 15 Container 200 200])
      (at_origin_event 15 15 Container 200 200)) \<and>
   hidden (cropBoxEl (onDrawOrManipulateEnd
      (foldl onDrawOrManipulateMove
         (onDrawStart (fresh_manager (blank_canvas 200 200 :: nat canvas))
            (at_origin_event 10 10 Container 200 200))
         [at_origin_event 13 8 Container 200 200, at_origin_event 15 15 Container 200 200])
      (at_origin_event 15 15 Container 200 200)))"
proof -
  let ?s = "fresh_manager (blank_canvas 200 200 :: nat canvas)"
  let ?d = "at_origin_event 10 10 Container 200 200"
  let ?m = "at_origin_event 13 8 Container 200 200"
  let ?n = "at_origin_event 15 15 Container 200 200"
  have out: "\<not> in_crop_box (target ?d)" and rd: "0 < dr_width (canvasRect ?d)"
    by (simp_all add: at_origin_event_def)
  have p: "getNativePointerPosition ?s ?d = \<lparr>point_x = 10, point_y = 10\<rparr>"
    "getNativePointerPosition ?s ?m = \<lparr>point_x = 13, point_y = 8\<rparr>"
    "getNativePointerPosition ?s ?n = \<lparr>point_x = 15, point_y = 15\<rparr>"
    by (simp_all add: getNativePointerPosition_def at_origin_event_def fresh_manager_def
        new_CropManager_def blank_canvas_def Let_def)
  have near: "\<forall>m \<in> set [?m, ?n]. 0 < dr_width (canvasRect m) \<and>
        \<bar>point_x (getNativePointerPosition ?s m) - point_x (getNativePointerPosition ?s ?d)\<bar> \<le> 5 \<and>
        \<bar>point_y (getNativePointerPosition ?s m) - point_y (getNativePointerPosition ?s ?d)\<bar> \<le> 5"
    by (simp add: p) (simp add: at_origin_event_def)
  from tap_defines_no_region [OF out rd near, of ?n] show ?thesis by blast
qed

section \<open>Projection between client and surface coordinates\<close>

text \<open>\<^verbatim>\<open>toSurface\<close> is \<open>getNativePointerPosition\<close>; \<^verbatim>\<open>toDisplay\<close> is the client position
  \<open>crop_box_client_origin\<close> at which \<open>updateStyle\<close> puts the crop box.\<close>

lemma native_position_inside:
  assumes rw: "0 < dr_width (canvasRect e)" and cw: "0 < canvas_width (canvasEl s)"
    and uniform: "dr_height (canvasRect e) * real (canvas_width (canvasEl s)) =
                  dr_width (canvasRect e) * real (canvas_height (canvasEl s))"
    and x: "dr_left (canvasRect e) \<le> clientX e" "clientX e \<le> dr_left (canvasRect e) + dr_width (canvasRect e)"
    and y: "dr_top (canvasRect e) \<le> clientY e" "clientY e \<le> dr_top (canvasRect e) + dr_height (canvasRect e)"
  shows "point_x (getNativePointerPosition s e) *
           (dr_width (canvasRect e) / real (canvas_width (canvasEl s))) = clientX e - dr_left (canvasRect e)"
    and "point_y (getNativePointerPosition s e) *
           (dr_width (canvasRect e) / real (canvas_width (canvasEl s))) = clientY e - dr_top (canvasRect e)"
proof -
  let ?W = "real (canvas_width (canvasEl s))" and ?H = "real (canvas_height (canvasEl s))"
  let ?rw = "dr_width (canvasRect e)" and ?rh = "dr_height (canvasRect e)"
  let ?a = "clientX e - dr_left (canvasRect e)" and ?b = "clientY e - dr_top (canvasRect e)"
  define k where "k = ?W / ?rw"
  have W: "0 < ?W" using cw by simp
  have k: "0 < k" using W rw by (simp add: k_def)
  have kw: "?rw * k = ?W" using rw by (simp add: k_def)
  have "?rh * k = (?rh * ?W) / ?rw" by (simp add: k_def)
  also have "\<dots> = (?rw * ?H) / ?rw" by (simp only: uniform)
  also have "\<dots> = ?H" using rw by simp
  finally have kh: "?rh * k = ?H" .
  have inv: "k * (?rw / ?W) = 1" using W rw by (simp add: k_def)
  have a: "0 \<le> ?a" "?a \<le> ?rw" and b: "0 \<le> ?b" "?b \<le> ?rh" using x y by simp_all
  have x0: "0 \<le> ?a * k" using a(1) k by (intro mult_nonneg_nonneg) simp_all
  have "?a * k \<le> ?rw * k" using a(2) k by (intro mult_right_mono) simp_all
  then have x1: "?a * k \<le> ?W" by (simp only: kw)
  have y0: "0 \<le> ?b * k" using b(1) k by (intro mult_nonneg_nonneg) simp_all
  have "?b * k \<le> ?rh * k" using b(2) k by (intro mult_right_mono) simp_all
  then have y1: "?b * k \<le> ?H" by (simp only: kh)
  have px: "point_x (getNativePointerPosition s e) = max 0 (min (?a * k) ?W)"
    and py: "point_y (getNativePointerPosition s e) = max 0 (min (?b * k) ?H)"
    by (simp_all add: getNativePointerPosition_def Let_def k_def)
  have "point_x (getNativePointerPosition s e) = ?a * k" using x0 x1 by (simp add: px)
  then have "point_x (getNativePointerPosition s e) * (?rw / ?W) = ?a * (k * (?rw / ?W))"
    by (simp only: mult.assoc)
  then show "point_x (getNativePointerPosition s e) * (?rw / ?W) = ?a" by (simp only: inv mult_1_right)
  have "point_y (getNativePointerPosition s e) = ?b * k" using y0 y1 by (simp add: py)
  then have "point_y (getNativePointerPosition s e) * (?rw / ?W) = ?b * (k * (?rw / ?W))"
    by (simp only: mult.assoc)
  then show "point_y (getNativePointerPosition s e) * (?rw / ?W) = ?b" by (simp only: inv mult_1_right)
qed

text \<open>
  Claim C7, in exact arithmetic. \<^verbatim>\<open>toSurface\<close> is \<open>getNativePointerPosition\<close>: the client
  point minus the client origin of the rendered canvas, divided by scale = rendered
  width / intrinsic width, clamped to the intrinsic size. \<^verbatim>\<open>toDisplay\<close> is where
  \<open>updateStyle\<close> puts the crop box on screen: the client origin of the rendered canvas
  plus the region's origin times the same scale. For a canvas rendered with positive
  width and without distortion, and a client point in the rendered box of the canvas,
  placing the region's origin at the surface point of the pointer and updating the style
  puts the crop box exactly at the pointer's client position.
\<close>

theorem projection_round_trip:
  fixes s t :: "'px crop_manager"
  assumes rw: "0 < dr_width (canvasRect e)" and cw: "0 < canvas_width (canvasEl s)"
    and uniform: "dr_height (canvasRect e) * real (canvas_width (canvasEl s)) =
                  dr_width (canvasRect e) * real (canvas_height (canvasEl s))"
    and x: "dr_left (canvasRect e) \<le> clientX e" "clientX e \<le> dr_left (canvasRect e) + dr_width (canvasRect e)"
    and y: "dr_top (canvasRect e) \<le> clientY e" "clientY e \<le> dr_top (canvasRect e) + dr_height (canvasRect e)"
  shows "crop_box_client_origin
           (cropBoxEl (updateStyle
              (s\<lparr>cropRect := (cropRect s)\<lparr>rect_x := point_x (getNativePointerPosition s e),
                                           rect_y := point_y (getNativePointerPosition s e)\<rparr>\<rparr>) e)) e
           = \<lparr>point_x = clientX e, point_y = clientY e\<rparr> \<and>
         getNativePointerPosition s e =
           \<lparr>point_x = max 0 (min ((clientX e - dr_left (canvasRect e)) /
                                    (dr_width (canvasRect e) / real (canvas_width (canvasEl s))))
                                 (real (canvas_width (canvasEl s)))),
            point_y = max 0 (min ((clientY e - dr_top (canvasRect e)) /
                                    (dr_width (canvasRect e) / real (canvas_width (canvasEl s))))
                                 (real (canvas_height (canvasEl s))))\<rparr> \<and>
         crop_box_client_origin (cropBoxEl (updateStyle t e)) e =
           \<lparr>point_x = dr_left (canvasRect e) +
                        rect_x (cropRect t) * (dr_width (canvasRect e) / real (canvas_width (canvasEl t))),
            point_y = dr_top (canvasRect e) +
                        rect_y (cropRect t) * (dr_width (canvasRect e) / real (canvas_width (canvasEl t)))\<rparr>"
proof -
  note p = native_position_inside [OF assms]
  have d: "crop_box_client_origin (cropBoxEl (updateStyle u e)) e =
           \<lparr>point_x = dr_left (canvasRect e) +
                        rect_x (cropRect u) * (dr_width (canvasRect e) / real (canvas_width (canvasEl u))),
            point_y = dr_top (canvasRect e) +
                        rect_y (cropRect u) * (dr_width (canvasRect e) / real (canvas_width (canvasEl u)))\<rparr>"
    for u :: "'px crop_manager"
    by (simp add: crop_box_client_origin_def updateStyle_def Let_def)
  have 1: "crop_box_client_origin
           (cropBoxEl (updateStyle
              (s\<lparr>cropRect := (cropRect s)\<lparr>rect_x := point_x (getNativePointerPosition s e),
                                           rect_y := point_y (getNativePointerPosition s e)\<rparr>\<rparr>) e)) e
           = \<lparr>point_x = clientX e, point_y = clientY e\<rparr>"
  proof -
    let ?u = "s\<lparr>cropRect := (cropRect s)\<lparr>rect_x := point_x (getNativePointerPosition s e),
                                           rect_y := point_y (getNativePointerPosition s e)\<rparr>\<rparr>"
    have u: "rect_x (cropRect ?u) = point_x (getNativePointerPosition s e)"
      "rect_y (cropRect ?u) = point_y (getNativePointerPosition s e)"
      "canvasEl ?u = canvasEl s"
      by simp_all
    have "crop_box_client_origin (cropBoxEl (updateStyle ?u e)) e =
        \<lparr>point_x = dr_left (canvasRect e) + (clientX e - dr_left (canvasRect e)),
         point_y = dr_top (canvasRect e) + (clientY e - dr_top (canvasRect e))\<rparr>"
      by (simp only: d u p)
    then show ?thesis by simp
  qed
  have 2: "getNativePointerPosition s e =
           \<lparr>point_x = max 0 (min ((clientX e - dr_left (canvasRect e)) /
                                    (dr_width (canvasRect e) / real (canvas_width (canvasEl s))))
                                 (real (canvas_width (canvasEl s)))),
            point_y = max 0 (min ((clientY e - dr_top (canvasRect e)) /
                                    (dr_width (canvasRect e) / real (canvas_width (canvasEl s))))
                                 (real (canvas_height (canvasEl s))))\<rparr>"
    by (simp add: getNativePointerPosition_def Let_def)
  from 1 2 d [of t] show ?thesis by (intro conjI)
qed

theorem projection_round_trip_witness:
  "crop_box_client_origin
     (cropBoxEl (updateStyle
        ((fresh_manager (blank_canvas 100 100 :: nat canvas))
           \<lparr>cropRect := (cropRect (fresh_manager (blank_canvas 100 100 :: nat canvas)))
              \<lparr>rect_x := point_x (getNativePointerPosition (fresh_manager (blank_canvas 100 100 :: nat canvas))
                            \<lparr>clientX = 150, clientY = 130, target = Container,
                             canvasRect = \<lparr>dr_left = 110, dr_top = 120, dr_width = 200, dr_height = 200\<rparr>,
                             containerRect = \<lparr>dr_left = 100, dr_top = 100, dr_width = 220, dr_height = 240\<rparr>\<rparr>),
               rect_y := point_y (getNativePointerPosition (fresh_manager (blank_canvas 100 100 :: nat canvas))
                            \<lparr>clientX = 150, clientY = 130, target = Container,
                             canvasRect = \<lparr>dr_left = 110, dr_top = 120, dr_width = 200, dr_height = 200\<rparr>,
                             containerRect = \<lparr>dr_left = 100, dr_top = 100, dr_width = 220, dr_height = 240\<rparr>\<rparr>)\<rparr>\<rparr>)
        \<lparr>clientX = 150, clientY = 130, target = Container,
         canvasRect = \<lparr>dr_left = 110, dr_top = 120, dr_width = 200, dr_height = 200\<rparr>,
         containerRect = \<lparr>dr_left = 100, dr_top = 100, dr_width = 220, dr_height = 240\<rparr>\<rparr>))
     \<lparr>clientX = 150, clientY = 130, target = Container,
      canvasRect = \<lparr>dr_left = 110, dr_top = 120, dr_width = 200, dr_height = 200\<rparr>,
      containerRect = \<lparr>dr_left = 100, dr_top = 100, dr_width = 220, dr_height = 240\<rparr>\<rparr>
   = \<lparr>point_x = 150, point_y = 130\<rparr> \<and>
   getNativePointerPosition (fresh_manager (blank_canvas 100 100 :: nat canvas))
      \<lparr>clientX = 150, clientY = 130, target = Container,
       canvasRect = \<lparr>dr_left = 110, dr_top = 120, dr_width = 200, dr_height = 200\<rparr>,
       containerRect = \<lparr>dr_left = 100, dr_top = 100, dr_width = 220, dr_height = 240\<rparr>\<rparr>
   = \<lparr>point_x = 20, point_y = 5\<rparr>"
proof -
  let ?s = "fresh_manager (blank_canvas 100 100 :: nat canvas)"
  let ?e = "\<lparr>clientX = 150, clientY = 130, target = Container,
       canvasRect = \<lparr>dr_left = 110, dr_top = 120, dr_width = 200, dr_height = 200\<rparr>,
       containerRect = \<lparr>dr_left = 100, dr_top = 100, dr_width = 220, dr_height = 240\<rparr>\<rparr>"
  have c: "canvasEl ?s = blank_canvas 100 100" by (simp add: fresh_manager_def new_CropManager_def)
  have h: "0 < dr_width (canvasRect ?e)" "0 < canvas_width (canvasEl ?s)"
    "dr_height (canvasRect ?e) * real (canvas_width (canvasEl ?s)) =
       dr_width (canvasRect ?e) * real (canvas_height (canvasEl ?s))"
    "dr_left (canvasRect ?e) \<le> clientX ?e" "clientX ?e \<le> dr_left (canvasRect ?e) + dr_width (canvasRect ?e)"
    "dr_top (canvasRect ?e) \<le> clientY ?e" "clientY ?e \<le> dr_top (canvasRect ?e) + dr_height (canvasRect ?e)"
    by (simp_all add: c blank_canvas_size)
  note r = projection_round_trip [OF h, of ?s]
  from r [THEN conjunct1] have 1: "crop_box_client_origin
     (cropBoxEl (updateStyle
        (?s\<lparr>cropRect := (cropRect ?s)
              \<lparr>rect_x := point_x (getNativePointerPosition ?s ?e),
               rect_y := point_y (getNativePointerPosition ?s ?e)\<rparr>\<rparr>) ?e)) ?e
     = \<lparr>point_x = 150, point_y = 130\<rparr>"
    by simp
  from r [THEN conjunct2, THEN conjunct1] have 2: "getNativePointerPosition ?s ?e = \<lparr>point_x = 20, point_y = 5\<rparr>"
    by (simp add: c blank_canvas_size)
  from 1 2 show ?thesis by (intro conjI)
qed

section \<open>Commit\<close>

lemma applyCrop_frame:
  "applyCropToCanvas s = s\<lparr>canvasEl := canvasEl (applyCropToCanvas s)\<rparr>"
  by (simp add: applyCropToCanvas_def Let_def)

lemma applyCrop_size:
  assumes "isCropped s"
  shows "canvas_width (canvasEl (applyCropToCanvas s)) = nat \<lfloor>rect_width (cropRect s)\<rfloor> \<and>
         canvas_height (canvasEl (applyCropToCanvas s)) = nat \<lfloor>rect_height (cropRect s)\<rfloor>"
  using assms
  by (simp add: applyCropToCanvas_def Let_def drawImage3_def drawImage_def set_width_def set_height_def)

text \<open>Copying a whole canvas onto a cleared canvas of the same size.\<close>

lemma drawImage3_copy:
  assumes "i < canvas_width c" and "j < canvas_height c"
  shows "pixels (drawImage3 (blank_canvas (canvas_width c) (canvas_height c)) c 0 0) i j = pixels c i j"
proof -
  have w: "0 < real (canvas_width c)" and h: "0 < real (canvas_height c)" using assms by simp_all
  have u: "(real i + 1 / 2) * real (canvas_width c) / real (canvas_width c) = real i + 1 / 2"
    using w by simp
  have v: "(real j + 1 / 2) * real (canvas_height c) / real (canvas_height c) = real j + 1 / 2"
    using h by simp
  have fl: "nat \<lfloor>real n + 1 / 2\<rfloor> = n" for n :: nat
    by linarith
  have lt: "real n + 1 / 2 < real m \<longleftrightarrow> n < m" for n m :: nat
    by linarith
  show ?thesis
    using assms w h
    by (simp add: drawImage3_def drawImage_def blank_canvas_def Let_def u v fl lt split: option.splits)
qed

text \<open>The crop itself: a region drawn at its own size onto a cleared canvas. Each
  pixel is sampled at its centre, shifted by the region's origin.\<close>

lemma drawImage_crop:
  assumes i: "i < nat \<lfloor>w\<rfloor>" and j: "j < nat \<lfloor>h\<rfloor>"
  shows "pixels (drawImage (blank_canvas (nat \<lfloor>w\<rfloor>) (nat \<lfloor>h\<rfloor>)) src sx sy w h 0 0 w h) i j =
     (if 0 \<le> sx + (real i + 1 / 2) \<and> sx + (real i + 1 / 2) < real (canvas_width src) \<and>
         0 \<le> sy + (real j + 1 / 2) \<and> sy + (real j + 1 / 2) < real (canvas_height src)
      then pixels src (nat \<lfloor>sx + (real i + 1 / 2)\<rfloor>) (nat \<lfloor>sy + (real j + 1 / 2)\<rfloor>)
      else None)"
proof -
  from i have iw: "real i + 1 \<le> w" by linarith
  from j have jh: "real j + 1 \<le> h" by linarith
  have w: "0 < w" and h: "0 < h" using iw jh by linarith+
  have u: "sx + (real i + 1 / 2 - 0) * w / w = sx + (real i + 1 / 2)" using w by simp
  have v: "sy + (real j + 1 / 2 - 0) * h / h = sy + (real j + 1 / 2)" using h by simp
  have c: "(0::real) \<le> real i + 1 / 2" "real i + 1 / 2 < 0 + w"
    "(0::real) \<le> real j + 1 / 2" "real j + 1 / 2 < 0 + h"
    using iw jh by simp_all
  have sz: "i < canvas_width (blank_canvas (nat \<lfloor>w\<rfloor>) (nat \<lfloor>h\<rfloor>))"
    "j < canvas_height (blank_canvas (nat \<lfloor>w\<rfloor>) (nat \<lfloor>h\<rfloor>))"
    using i j by (simp_all add: blank_canvas_size)
  have bl: "pixels (blank_canvas (nat \<lfloor>w\<rfloor>) (nat \<lfloor>h\<rfloor>)) i j = None"
    by (simp add: blank_canvas_def)
  show ?thesis
    unfolding drawImage_def Let_def u v
    using sz w h c by (auto simp: bl split: option.splits)
qed

lemma whole_origin_sample:
  "(0 \<le> real a + (real b + 1 / 2)) \<and>
   (real a + (real b + 1 / 2) < real m \<longleftrightarrow> a + b < m) \<and>
   nat \<lfloor>real a + (real b + 1 / 2)\<rfloor> = a + b"
  by (intro conjI) linarith+

lemma drawImage_size:
  "canvas_width (drawImage dst src sx sy sw sh dx dy dw dh) = canvas_width dst \<and>
   canvas_height (drawImage dst src sx sy sw sh dx dy dw dh) = canvas_height dst"
  by (simp add: drawImage_def)

lemma applyCrop_canvas:
  assumes "isCropped s"
  shows "canvasEl (applyCropToCanvas s) =
     drawImage3
       (blank_canvas (nat \<lfloor>rect_width (cropRect s)\<rfloor>) (nat \<lfloor>rect_height (cropRect s)\<rfloor>))
       (drawImage
          (blank_canvas (nat \<lfloor>rect_width (cropRect s)\<rfloor>) (nat \<lfloor>rect_height (cropRect s)\<rfloor>))
          (canvasEl s)
          (rect_x (cropRect s)) (rect_y (cropRect s)) (rect_width (cropRect s)) (rect_height (cropRect s))
          0 0 (rect_width (cropRect s)) (rect_height (cropRect s)))
       0 0"
  using assms
  by (simp add: applyCropToCanvas_def Let_def set_width_def set_height_def blank_canvas_def
      drawImage_size createElement_canvas_def)

lemma applyCrop_pixels:
  assumes c: "isCropped s"
    and i: "i < nat \<lfloor>rect_width (cropRect s)\<rfloor>" and j: "j < nat \<lfloor>rect_height (cropRect s)\<rfloor>"
  shows "pixels (canvasEl (applyCropToCanvas s)) i j =
     (if 0 \<le> rect_x (cropRect s) + (real i + 1 / 2) \<and>
         rect_x (cropRect s) + (real i + 1 / 2) < real (canvas_width (canvasEl s)) \<and>
         0 \<le> rect_y (cropRect s) + (real j + 1 / 2) \<and>
         rect_y (cropRect s) + (real j + 1 / 2) < real (canvas_height (canvasEl s))
      then pixels (canvasEl s) (nat \<lfloor>rect_x (cropRect s) + (real i + 1 / 2)\<rfloor>)
             (nat \<lfloor>rect_y (cropRect s) + (real j + 1 / 2)\<rfloor>)
      else None)"
proof -
  let ?w = "rect_width (cropRect s)" and ?h = "rect_height (cropRect s)"
  let ?cropped = "drawImage (blank_canvas (nat \<lfloor>?w\<rfloor>) (nat \<lfloor>?h\<rfloor>)) (canvasEl s)
          (rect_x (cropRect s)) (rect_y (cropRect s)) ?w ?h 0 0 ?w ?h"
  have sz: "canvas_width ?cropped = nat \<lfloor>?w\<rfloor>" "canvas_height ?cropped = nat \<lfloor>?h\<rfloor>"
    by (simp_all add: drawImage_size blank_canvas_size)
  have "canvasEl (applyCropToCanvas s) =
      drawImage3 (blank_canvas (canvas_width ?cropped) (canvas_height ?cropped)) ?cropped 0 0"
    by (simp only: applyCrop_canvas [OF c] sz)
  moreover have "pixels (drawImage3 (blank_canvas (canvas_width ?cropped) (canvas_height ?cropped)) ?cropped 0 0) i j
      = pixels ?cropped i j"
    using i j by (intro drawImage3_copy) (simp_all only: sz)
  moreover have "pixels ?cropped i j =
     (if 0 \<le> rect_x (cropRect s) + (real i + 1 / 2) \<and>
         rect_x (cropRect s) + (real i + 1 / 2) < real (canvas_width (canvasEl s)) \<and>
         0 \<le> rect_y (cropRect s) + (real j + 1 / 2) \<and>
         rect_y (cropRect s) + (real j + 1 / 2) < real (canvas_height (canvasEl s))
      then pixels (canvasEl s) (nat \<lfloor>rect_x (cropRect s) + (real i + 1 / 2)\<rfloor>)
             (nat \<lfloor>rect_y (cropRect s) + (real j + 1 / 2)\<rfloor>)
      else None)"
    using i j by (rule drawImage_crop)
  ultimately show ?thesis by (simp only:)
qed

text \<open>
  Claim C6, as the code has it. Without a defined region \<open>applyCropToCanvas\<close> returns the
  manager, canvas included, unchanged. With a defined region of sizes at least 1 it
  changes nothing but the canvas, and the new canvas has the integer parts of the
  region's width and height as its size, so exactly the region's size when that is whole.
  Its content is the source within the region's bounds: the pixel at \<open>(i, j)\<close> is the
  source pixel under the point \<open>(x + i + 1/2, y + j + 1/2)\<close>, for every origin
  \<open>(x, y)\<close>, which is the source pixel \<open>(x + i, y + j)\<close> when the origin is whole; it is
  transparent where that point is off the source.
\<close>

theorem applyCropToCanvas_result:
  "(\<not> isCropped s \<longrightarrow> applyCropToCanvas s = s) \<and>
   (isCropped s \<and> 1 \<le> rect_width (cropRect s) \<and> 1 \<le> rect_height (cropRect s) \<longrightarrow>
      applyCropToCanvas s = s\<lparr>canvasEl := canvasEl (applyCropToCanvas s)\<rparr> \<and>
      canvas_width (canvasEl (applyCropToCanvas s)) = nat \<lfloor>rect_width (cropRect s)\<rfloor> \<and>
      canvas_height (canvasEl (applyCropToCanvas s)) = nat \<lfloor>rect_height (cropRect s)\<rfloor> \<and>
      (rect_width (cropRect s) = real wn \<longrightarrow> canvas_width (canvasEl (applyCropToCanvas s)) = wn) \<and>
      (rect_height (cropRect s) = real hn \<longrightarrow> canvas_height (canvasEl (applyCropToCanvas s)) = hn)) \<and>
   (isCropped s \<and>
    i < canvas_width (canvasEl (applyCropToCanvas s)) \<and>
    j < canvas_height (canvasEl (applyCropToCanvas s)) \<longrightarrow>
      pixels (canvasEl (applyCropToCanvas s)) i j =
        (if 0 \<le> rect_x (cropRect s) + (real i + 1 / 2) \<and>
            rect_x (cropRect s) + (real i + 1 / 2) < real (canvas_width (canvasEl s)) \<and>
            0 \<le> rect_y (cropRect s) + (real j + 1 / 2) \<and>
            rect_y (cropRect s) + (real j + 1 / 2) < real (canvas_height (canvasEl s))
         then pixels (canvasEl s) (nat \<lfloor>rect_x (cropRect s) + (real i + 1 / 2)\<rfloor>)
                (nat \<lfloor>rect_y (cropRect s) + (real j + 1 / 2)\<rfloor>)
         else None)) \<and>
   (isCropped s \<and> rect_x (cropRect s) = real xn \<and> rect_y (cropRect s) = real yn \<and>
    i < canvas_width (canvasEl (applyCropToCanvas s)) \<and>
    j < canvas_height (canvasEl (applyCropToCanvas s)) \<longrightarrow>
      pixels (canvasEl (applyCropToCanvas s)) i j =
        (if xn + i < canvas_width (canvasEl s) \<and> yn + j < canvas_height (canvasEl s)
         then pixels (canvasEl s) (xn + i) (yn + j) else None))"
proof -
  have a: "\<not> isCropped s \<longrightarrow> applyCropToCanvas s = s"
    by (simp add: applyCropToCanvas_def)
  have b: "isCropped s \<and> 1 \<le> rect_width (cropRect s) \<and> 1 \<le> rect_height (cropRect s) \<longrightarrow>
      applyCropToCanvas s = s\<lparr>canvasEl := canvasEl (applyCropToCanvas s)\<rparr> \<and>
      canvas_width (canvasEl (applyCropToCanvas s)) = nat \<lfloor>rect_width (cropRect s)\<rfloor> \<and>
      canvas_height (canvasEl (applyCropToCanvas s)) = nat \<lfloor>rect_height (cropRect s)\<rfloor> \<and>
      (rect_width (cropRect s) = real wn \<longrightarrow> canvas_width (canvasEl (applyCropToCanvas s)) = wn) \<and>
      (rect_height (cropRect s) = real hn \<longrightarrow> canvas_height (canvasEl (applyCropToCanvas s)) = hn)"
  proof (intro impI)
    assume "isCropped s \<and> 1 \<le> rect_width (cropRect s) \<and> 1 \<le> rect_height (cropRect s)"
    then have c: "isCropped s" by simp
    note sz = applyCrop_size [OF c]
    from applyCrop_frame [of s] sz
    show "applyCropToCanvas s = s\<lparr>canvasEl := canvasEl (applyCropToCanvas s)\<rparr> \<and>
      canvas_width (canvasEl (applyCropToCanvas s)) = nat \<lfloor>rect_width (cropRect s)\<rfloor> \<and>
      canvas_height (canvasEl (applyCropToCanvas s)) = nat \<lfloor>rect_height (cropRect s)\<rfloor> \<and>
      (rect_width (cropRect s) = real wn \<longrightarrow> canvas_width (canvasEl (applyCropToCanvas s)) = wn) \<and>
      (rect_height (cropRect s) = real hn \<longrightarrow> canvas_height (canvasEl (applyCropToCanvas s)) = hn)"
      by simp
  qed
  have p: "pixels (canvasEl (applyCropToCanvas s)) i j =
        (if 0 \<le> rect_x (cropRect s) + (real i + 1 / 2) \<and>
            rect_x (cropRect s) + (real i + 1 / 2) < real (canvas_width (canvasEl s)) \<and>
            0 \<le> rect_y (cropRect s) + (real j + 1 / 2) \<and>
            rect_y (cropRect s) + (real j + 1 / 2) < real (canvas_height (canvasEl s))
         then pixels (canvasEl s) (nat \<lfloor>rect_x (cropRect s) + (real i + 1 / 2)\<rfloor>)
                (nat \<lfloor>rect_y (cropRect s) + (real j + 1 / 2)\<rfloor>)
         else None)"
    if c: "isCropped s" and i: "i < canvas_width (canvasEl (applyCropToCanvas s))"
      and j: "j < canvas_height (canvasEl (applyCropToCanvas s))"
  proof -
    from i j have "i < nat \<lfloor>rect_width (cropRect s)\<rfloor>" "j < nat \<lfloor>rect_height (cropRect s)\<rfloor>"
      by (simp_all add: applyCrop_size [OF c])
    with c show ?thesis by (rule applyCrop_pixels)
  qed
  have q: "pixels (canvasEl (applyCropToCanvas s)) i j =
        (if xn + i < canvas_width (canvasEl s) \<and> yn + j < canvas_height (canvasEl s)
         then pixels (canvasEl s) (xn + i) (yn + j) else None)"
    if c: "isCropped s" and x: "rect_x (cropRect s) = real xn" and y: "rect_y (cropRect s) = real yn"
      and i: "i < canvas_width (canvasEl (applyCropToCanvas s))"
      and j: "j < canvas_height (canvasEl (applyCropToCanvas s))"
    unfolding p [OF c i j] x y by (simp only: whole_origin_sample) simp
  from a b p q show ?thesis by blast
qed

theorem applyCropToCanvas_result_witness:
  "applyCropToCanvas (fresh_manager (numbered_canvas 100 100)) = fresh_manager (numbered_canvas 100 100) \<and>
   canvas_width (canvasEl (applyCropToCanvas
      ((fresh_manager (numbered_canvas 100 100))
         \<lparr>cropRect := \<lparr>rect_x = 0, rect_y = 0, rect_width = 40, rect_height = 40\<rparr>,
          isCropDefined := True\<rparr>))) = 40 \<and>
   canvas_height (canvasEl (applyCropToCanvas
      ((fresh_manager (numbered_canvas 100 100))
         \<lparr>cropRect := \<lparr>rect_x = 0, rect_y = 0, rect_width = 40, rect_height = 40\<rparr>,
          isCropDefined := True\<rparr>))) = 40 \<and>
   pixels (canvasEl (applyCropToCanvas
      ((fresh_manager (numbered_canvas 100 100))
         \<lparr>cropRect := \<lparr>rect_x = 0, rect_y = 0, rect_width = 40, rect_height = 40\<rparr>,
          isCropDefined := True\<rparr>))) 39 7 = Some 739 \<and>
   pixels (numbered_canvas 100 100) 39 7 = Some 739 \<and>
   canvas_width (canvasEl (applyCropToCanvas
      ((fresh_manager (numbered_canvas 100 100))
         \<lparr>cropRect := \<lparr>rect_x = 21 / 2, rect_y = 81 / 4, rect_width = 81 / 2, rect_height = 40\<rparr>,
          isCropDefined := True\<rparr>))) = 40 \<and>
   pixels (canvasEl (applyCropToCanvas
      ((fresh_manager (numbered_canvas 100 100))
         \<lparr>cropRect := \<lparr>rect_x = 21 / 2, rect_y = 81 / 4, rect_width = 81 / 2, rect_height = 40\<rparr>,
          isCropDefined := True\<rparr>))) 0 0 = Some 2011 \<and>
   pixels (numbered_canvas 100 100) 11 20 = Some 2011"
proof -
  let ?u = "fresh_manager (numbered_canvas 100 100)"
  let ?s = "?u\<lparr>cropRect := \<lparr>rect_x = 0, rect_y = 0, rect_width = 40, rect_height = 40\<rparr>,
               isCropDefined := True\<rparr>"
  let ?t = "?u\<lparr>cropRect := \<lparr>rect_x = 21 / 2, rect_y = 81 / 4, rect_width = 81 / 2, rect_height = 40\<rparr>,
               isCropDefined := True\<rparr>"
  have u: "\<not> isCropped ?u" by (simp add: isCropped_def fresh_manager_def new_CropManager_def)
  have f: "isCropped ?s" "rect_x (cropRect ?s) = real 0" "rect_y (cropRect ?s) = real 0"
    "rect_width (cropRect ?s) = real 40" "rect_height (cropRect ?s) = real 40"
    "canvasEl ?s = numbered_canvas 100 100"
    by (simp_all add: isCropped_def fresh_manager_def new_CropManager_def)
  have n: "canvas_width (numbered_canvas 100 100) = 100" "canvas_height (numbered_canvas 100 100) = 100"
    "pixels (numbered_canvas 100 100) 39 7 = Some 739"
    "pixels (numbered_canvas 100 100) 11 20 = Some 2011"
    by (simp_all add: numbered_canvas_def)
  from applyCropToCanvas_result [where s = ?u] u have 1: "applyCropToCanvas ?u = ?u" by blast
  note r = applyCropToCanvas_result [where s = ?s and wn = 40 and hn = 40 and xn = 0 and yn = 0
      and i = 39 and j = 7]
  have ge: "1 \<le> rect_width (cropRect ?s)" "1 \<le> rect_height (cropRect ?s)"
    by simp_all
  from r f ge have 2: "canvas_width (canvasEl (applyCropToCanvas ?s)) = 40"
    and 3: "canvas_height (canvasEl (applyCropToCanvas ?s)) = 40"
    by blast+
  from r f 2 3 have "pixels (canvasEl (applyCropToCanvas ?s)) 39 7 =
        (if 0 + 39 < canvas_width (canvasEl ?s) \<and> 0 + 7 < canvas_height (canvasEl ?s)
         then pixels (canvasEl ?s) (0 + 39) (0 + 7) else None)"
    by simp
  then have 4: "pixels (canvasEl (applyCropToCanvas ?s)) 39 7 = Some 739"
    by (simp add: f(6) n)
  have g: "isCropped ?t" "rect_x (cropRect ?t) = 21 / 2" "rect_y (cropRect ?t) = 81 / 4"
    "rect_width (cropRect ?t) = 81 / 2" "rect_height (cropRect ?t) = 40"
    "canvasEl ?t = numbered_canvas 100 100"
    by (simp_all add: isCropped_def fresh_manager_def new_CropManager_def)
  note q = applyCropToCanvas_result [where s = ?t and i = 0 and j = 0]
  from q g have "canvas_width (canvasEl (applyCropToCanvas ?t)) = nat \<lfloor>rect_width (cropRect ?t)\<rfloor>"
    and "canvas_height (canvasEl (applyCropToCanvas ?t)) = nat \<lfloor>rect_height (cropRect ?t)\<rfloor>"
    by simp_all
  then have 5: "canvas_width (canvasEl (applyCropToCanvas ?t)) = 40"
    and 6: "canvas_height (canvasEl (applyCropToCanvas ?t)) = 40"
    by (simp_all add: g)
  from q g(1) 5 6 have "pixels (canvasEl (applyCropToCanvas ?t)) 0 0 =
        (if 0 \<le> rect_x (cropRect ?t) + (real 0 + 1 / 2) \<and>
            rect_x (cropRect ?t) + (real 0 + 1 / 2) < real (canvas_width (canvasEl ?t)) \<and>
            0 \<le> rect_y (cropRect ?t) + (real 0 + 1 / 2) \<and>
            rect_y (cropRect ?t) + (real 0 + 1 / 2) < real (canvas_height (canvasEl ?t))
         then pixels (canvasEl ?t) (nat \<lfloor>rect_x (cropRect ?t) + (real 0 + 1 / 2)\<rfloor>)
                (nat \<lfloor>rect_y (cropRect ?t) + (real 0 + 1 / 2)\<rfloor>)
         else None)"
    by simp
  also have "\<dots> = pixels (numbered_canvas 100 100) 11 20"
    by (simp add: g n)
  finally have 7: "pixels (canvasEl (applyCropToCanvas ?t)) 0 0 = Some 2011" by (simp add: n)
  from 1 2 3 4 n(3) 5 7 n(4) show ?thesis by simp
qed

lemma move_handler_drawing:
  assumes "isDrawing s"
  shows "onDrawOrManipulateMove s e =
     (let s1 = draw s (getNativePointerPosition s e)
      in if isCropDefined s1 then updateStyle (constrainCropBox s1) e else s1)"
  using assms by (simp add: onDrawOrManipulateMove_def Let_def)

lemma draw_first_region:
  assumes "\<not> isCropDefined s"
    and "\<bar>point_x p - point_x (startPointer s)\<bar> > 5 \<or> \<bar>point_y p - point_y (startPointer s)\<bar> > 5"
  shows "isCropDefined (draw s p) \<and>
    cropRect (draw s p) =
      \<lparr>rect_x = (if point_x p - point_x (startPointer s) > 0 then point_x (startPointer s) else point_x p),
       rect_y = (if point_y p - point_y (startPointer s) > 0 then point_y (startPointer s) else point_y p),
       rect_width = \<bar>point_x p - point_x (startPointer s)\<bar>,
       rect_height = \<bar>point_y p - point_y (startPointer s)\<bar>\<rparr>"
  using assms by (auto simp: draw_def Let_def)

text \<open>
  The claim as stated fails for a region whose size is not whole, which a drag produces
  whenever the canvas is not rendered at its intrinsic size: on a 100 x 100 canvas
  rendered at 200 x 200, a drag from client (0, 0) to client (81, 81) defines the region
  (0, 0, 40.5, 40.5), and the committed canvas is 40 pixels wide.
\<close>

theorem applyCropToCanvas_size_counterexample:
  "isCropped (onDrawOrManipulateEnd
      (onDrawOrManipulateMove
         (onDrawStart (fresh_manager (blank_canvas 100 100 :: nat canvas))
            (at_origin_event 0 0 Container 200 200))
         (at_origin_event 81 81 Container 200 200))
      (at_origin_event 81 81 Container 200 200)) \<and>
   rect_width (cropRect (onDrawOrManipulateEnd
      (onDrawOrManipulateMove
         (onDrawStart (fresh_manager (blank_canvas 100 100 :: nat canvas))
            (at_origin_event 0 0 Container 200 200))
         (at_origin_event 81 81 Container 200 200))
      (at_origin_event 81 81 Container 200 200))) = 81 / 2 \<and>
   canvas_width (canvasEl (applyCropToCanvas (onDrawOrManipulateEnd
      (onDrawOrManipulateMove
         (onDrawStart (fresh_manager (blank_canvas 100 100 :: nat canvas))
            (at_origin_event 0 0 Container 200 200))
         (at_origin_event 81 81 Container 200 200))
      (at_origin_event 81 81 Container 200 200)))) = 40 \<and>
   real 40 \<noteq> 81 / 2"
proof -
  let ?s = "fresh_manager (blank_canvas 100 100 :: nat canvas)"
  let ?d = "at_origin_event 0 0 Container 200 200"
  let ?m = "at_origin_event 81 81 Container 200 200"
  let ?a = "onDrawStart ?s ?d"
  let ?b = "onDrawOrManipulateMove ?a ?m"
  let ?z = "onDrawOrManipulateEnd ?b ?m"
  have out: "\<not> in_crop_box (target ?d)" by (simp add: at_origin_event_def)
  have g: "getNativePointerPosition ?s ?d = \<lparr>point_x = 0, point_y = 0\<rparr>"
    "getNativePointerPosition ?s ?m = \<lparr>point_x = 81 / 2, point_y = 81 / 2\<rparr>"
    by (simp_all add: getNativePointerPosition_def at_origin_event_def fresh_manager_def
        new_CropManager_def blank_canvas_def Let_def)
  have cs: "canvasEl ?s = blank_canvas 100 100" by (simp add: fresh_manager_def new_CropManager_def)
  note a = draw_start_fields [OF out, of ?s]
  have a1: "isDrawing ?a" "\<not> isCropDefined ?a" "startPointer ?a = \<lparr>point_x = 0, point_y = 0\<rparr>"
    "canvasEl ?a = blank_canvas 100 100"
    by (simp_all add: a g cs)
  have ga: "getNativePointerPosition ?a ?m = \<lparr>point_x = 81 / 2, point_y = 81 / 2\<rparr>"
    using native_position_canvas [of ?a ?s ?m] by (simp add: a1 cs g)
  let ?p = "\<lparr>point_x = 81 / 2, point_y = 81 / 2\<rparr>"
  have far: "\<bar>point_x ?p - point_x (startPointer ?a)\<bar> > 5 \<or> \<bar>point_y ?p - point_y (startPointer ?a)\<bar> > 5"
    by (simp add: a1)
  note dr = draw_first_region [OF a1(2) far]
  have dr1: "isCropDefined (draw ?a ?p)"
    and dr2: "cropRect (draw ?a ?p) = \<lparr>rect_x = 0, rect_y = 0, rect_width = 81 / 2, rect_height = 81 / 2\<rparr>"
    using dr by (simp_all add: a1)
  have dc: "canvasEl (draw ?a ?p) = blank_canvas 100 100" by (simp add: draw_fields a1)
  have b: "?b = updateStyle (constrainCropBox (draw ?a ?p)) ?m"
    by (simp add: move_handler_drawing [OF a1(1)] ga Let_def dr1)
  have b1: "isCropDefined ?b" by (simp add: b updateStyle_frame constrain_fields dr1)
  have "cropRect ?b = cropRect (constrainCropBox (draw ?a ?p))" by (simp add: b updateStyle_frame)
  then have b2: "rect_width (cropRect ?b) = 81 / 2"
    by (simp add: constrain_width dr2 dc blank_canvas_size)
  have z1: "isCropped ?z" by (simp add: isCropped_def end_fields b1)
  have z2: "rect_width (cropRect ?z) = 81 / 2" by (simp add: end_fields b2)
  have "canvas_width (canvasEl (applyCropToCanvas ?z)) = nat \<lfloor>rect_width (cropRect ?z)\<rfloor>"
    using applyCrop_size [OF z1] by simp
  then have z3: "canvas_width (canvasEl (applyCropToCanvas ?z)) = 40" by (simp add: z2)
  from z1 z2 z3 show ?thesis by simp
qed

section \<open>Regions beyond the surface\<close>

text \<open>
  The claim's exception is documented for a surface smaller than twice the minimum size.
  On a 200 x 200 canvas, rendered 1:1 at the client origin, the handlers nevertheless
  leave a defined region beyond the surface: a draw from (190, 10) to (196, 60) gives
  (190, 10, 30, 50) with far edge 220, and a drag of handle \<^verbatim>\<open>w\<close> of the region
  (10, 10, 50, 50) from (7, 35) to the right edge gives (203, 10, 30, 50), which has no
  point on the canvas.
\<close>

theorem constrainCropBox_surface_counterexample:
  "2 * 30 \<le> real (canvas_width (blank_canvas 200 200 :: nat canvas)) \<and>
   isCropDefined (onDrawOrManipulateMove
      (onDrawStart (fresh_manager (blank_canvas 200 200 :: nat canvas))
         (at_origin_event 190 10 Container 200 200))
      (at_origin_event 196 60 Container 200 200)) \<and>
   cropRect (onDrawOrManipulateMove
      (onDrawStart (fresh_manager (blank_canvas 200 200 :: nat canvas))
         (at_origin_event 190 10 Container 200 200))
      (at_origin_event 196 60 Container 200 200))
     = \<lparr>rect_x = 190, rect_y = 10, rect_width = 30, rect_height = 50\<rparr> \<and>
   cropRect (onDrawOrManipulateMove
      (manipulating_manager (blank_canvas 200 200 :: nat canvas) ''w''
         \<lparr>rect_x = 10, rect_y = 10, rect_width = 50, rect_height = 50\<rparr> \<lparr>point_x = 7, point_y = 35\<rparr>)
      (at_origin_event 200 35 (CropHandle (Some ''w'')) 200 200))
     = \<lparr>rect_x = 203, rect_y = 10, rect_width = 30, rect_height = 50\<rparr> \<and>
   real (canvas_width (blank_canvas 200 200 :: nat canvas)) < 190 + 30 \<and>
   real (canvas_width (blank_canvas 200 200 :: nat canvas)) < 203"
proof -
  let ?s = "fresh_manager (blank_canvas 200 200 :: nat canvas)"
  let ?d = "at_origin_event 190 10 Container 200 200"
  let ?m = "at_origin_event 196 60 Container 200 200"
  let ?a = "onDrawStart ?s ?d"
  have out: "\<not> in_crop_box (target ?d)" by (simp add: at_origin_event_def)
  have g: "getNativePointerPosition ?s ?d = \<lparr>point_x = 190, point_y = 10\<rparr>"
    "getNativePointerPosition ?s ?m = \<lparr>point_x = 196, point_y = 60\<rparr>"
    by (simp_all add: getNativePointerPosition_def at_origin_event_def fresh_manager_def
        new_CropManager_def blank_canvas_def Let_def)
  have cs: "canvasEl ?s = blank_canvas 200 200" by (simp add: fresh_manager_def new_CropManager_def)
  note a = draw_start_fields [OF out, of ?s]
  have a1: "isDrawing ?a" "\<not> isCropDefined ?a" "startPointer ?a = \<lparr>point_x = 190, point_y = 10\<rparr>"
    "canvasEl ?a = blank_canvas 200 200"
    by (simp_all add: a g cs)
  have ga: "getNativePointerPosition ?a ?m = \<lparr>point_x = 196, point_y = 60\<rparr>"
    using native_position_canvas [of ?a ?s ?m] by (simp add: a1 cs g)
  let ?p = "\<lparr>point_x = 196, point_y = 60\<rparr>"
  have far: "\<bar>point_x ?p - point_x (startPointer ?a)\<bar> > 5 \<or> \<bar>point_y ?p - point_y (startPointer ?a)\<bar> > 5"
    by (simp add: a1)
  note dr = draw_first_region [OF a1(2) far]
  have dr1: "isCropDefined (draw ?a ?p)"
    and dr2: "cropRect (draw ?a ?p) = \<lparr>rect_x = 190, rect_y = 10, rect_width = 6, rect_height = 50\<rparr>"
    using dr by (simp_all add: a1)
  have dc: "canvasEl (draw ?a ?p) = blank_canvas 200 200" by (simp add: draw_fields a1)
  have b: "onDrawOrManipulateMove ?a ?m = updateStyle (constrainCropBox (draw ?a ?p)) ?m"
    by (simp add: move_handler_drawing [OF a1(1)] ga Let_def dr1)
  have 1: "isCropDefined (onDrawOrManipulateMove ?a ?m)"
    by (simp add: b updateStyle_frame constrain_fields dr1)
  have "cropRect (onDrawOrManipulateMove ?a ?m) = cropRect (constrainCropBox (draw ?a ?p))"
    by (simp add: b updateStyle_frame)
  also have "\<dots> = \<lparr>rect_x = 190, rect_y = 10, rect_width = 30, rect_height = 50\<rparr>"
    unfolding constrain_rect by (simp add: dr2 dc blank_canvas_size Let_def)
  finally have 2: "cropRect (onDrawOrManipulateMove ?a ?m) =
      \<lparr>rect_x = 190, rect_y = 10, rect_width = 30, rect_height = 50\<rparr>" .
  let ?t = "manipulating_manager (blank_canvas 200 200 :: nat canvas) ''w''
         \<lparr>rect_x = 10, rect_y = 10, rect_width = 50, rect_height = 50\<rparr> \<lparr>point_x = 7, point_y = 35\<rparr>"
  let ?e = "at_origin_event 200 35 (CropHandle (Some ''w'')) 200 200"
  have f: "activeHandle ?t = Some ''w''"
    "cropRect ?t = \<lparr>rect_x = 10, rect_y = 10, rect_width = 50, rect_height = 50\<rparr>"
    "startCropRect ?t = \<lparr>rect_x = 10, rect_y = 10, rect_width = 50, rect_height = 50\<rparr>"
    "startPointer ?t = \<lparr>point_x = 7, point_y = 35\<rparr>"
    "canvasEl ?t = blank_canvas 200 200"
    "isManipulating ?t" "\<not> isDrawing ?t" "isCropDefined ?t"
    by (simp_all add: manipulating_manager_def fresh_manager_def new_CropManager_def)
  have p: "getNativePointerPosition ?t ?e = \<lparr>point_x = 200, point_y = 35\<rparr>"
    unfolding getNativePointerPosition_def Let_def f
    by (simp add: at_origin_event_def blank_canvas_size)
  have m: "cropRect (manipulate ?t 193 0) = \<lparr>rect_x = 203, rect_y = 10, rect_width = - 143, rect_height = 50\<rparr>"
    by (simp add: manipulate_def f resize_def)
  have "cropRect (onDrawOrManipulateMove ?t ?e) = cropRect (constrainCropBox (manipulate ?t 193 0))"
    by (simp add: move_handler_manipulating [OF f(6) f(7)] Let_def updateStyle_frame f(4,8) p)
  also have "\<dots> = \<lparr>rect_x = 203, rect_y = 10, rect_width = 30, rect_height = 50\<rparr>"
    unfolding constrain_rect by (simp add: m Let_def manipulate_fields f(5) blank_canvas_size)
  finally have 3: "cropRect (onDrawOrManipulateMove ?t ?e) =
      \<lparr>rect_x = 203, rect_y = 10, rect_width = 30, rect_height = 50\<rparr>" .
  from 1 2 3 show ?thesis by (simp add: blank_canvas_size)
qed

end
